theory Spec2Isabelle
  imports Complex_Main "HOL-Library.Sublist"
begin

section \<open>URL validity\<close>

text \<open>
  \<^verbatim>\<open>isValidUrl\<close> exists twice with the same body: exported from the URL utilities and as a
  private helper of the interval-based coordinator. The argument is typed \<^verbatim>\<open>string\<close>, so
  the guard \<^verbatim>\<open>typeof url === 'string'\<close> is true of every input of the model; callers that
  hold an optional address treat the missing one as invalid (see \<open>isValidUrl_opt\<close>).
  \<^verbatim>\<open>String.prototype.startsWith\<close> is the prefix test on the list of characters.
\<close>

definition startsWith :: "string \<Rightarrow> string \<Rightarrow> bool" where
  "startsWith url p = prefix p url"

definition isValidUrl :: "string \<Rightarrow> bool" where
  "isValidUrl url =
     (\<not> startsWith url ''chrome://'' \<and>
      \<not> startsWith url ''chrome-extension://'' \<and>
      \<not> startsWith url ''chrome-search://'' \<and>
      \<not> startsWith url ''about:'' \<and>
      \<not> startsWith url ''edge://'' \<and>
      \<not> startsWith url ''brave://'')"

definition isValidUrl_opt :: "string option \<Rightarrow> bool" where
  "isValidUrl_opt u = (case u of None \<Rightarrow> False | Some url \<Rightarrow> isValidUrl url)"

section \<open>Data model of the coordinator\<close>

text \<open>
  The background coordinator exists in two variants with the same globals: the
  loop-based one (axios gateway, \<^verbatim>\<open>getValidTab\<close>, \<^verbatim>\<open>sendProcessMessage\<close>, a \<^verbatim>\<open>while\<close> loop)
  and the interval-based one (\<^verbatim>\<open>fetch\<close>, \<^verbatim>\<open>setInterval\<close>). Functions of the loop-based
  coordinator keep their source names; those of the interval-based coordinator carry the
  suffix \<open>_interval\<close>.
\<close>

datatype session_status = S_active | S_completed | S_error | S_paused

datatype task_status = T_idle | T_running | T_completed | T_error | T_paused | T_stopping

datatype processing_status =
  P_idle | P_parsing | P_updating | P_executing_actions | P_waiting_for_server |
  P_completed | P_error | P_paused | P_stopping

text \<open>
  \<^verbatim>\<open>activeSession\<close>: \<^verbatim>\<open>{taskId, status, isPaused?, isRunning?}\<close>; an optional field is an
  \<open>option\<close>.
\<close>

record session =
  taskId :: string
  status :: session_status
  sessionIsPaused :: "bool option"
  sessionIsRunning :: "bool option"

text \<open>
  The record stored under \<^verbatim>\<open>taskState\<close>. The coordinator builds it by spreading whatever
  is stored (or \<^verbatim>\<open>{}\<close>) and overriding some fields, so every field may be missing.
\<close>

record taskState =
  ts_taskId :: "string option"
  ts_status :: "task_status option"
  ts_task :: "string option"
  ts_isRunning :: "bool option"
  ts_iterations :: "nat option"
  ts_isPaused :: "bool option"
  ts_processingStatus :: "processing_status option"
  ts_lastUpdateTimestamp :: "string option"

definition empty_taskState :: taskState where
  "empty_taskState =
     \<lparr>ts_taskId = None, ts_status = None, ts_task = None, ts_isRunning = None,
      ts_iterations = None, ts_isPaused = None, ts_processingStatus = None,
      ts_lastUpdateTimestamp = None\<rparr>"

text \<open>
  The last server reply, \<^verbatim>\<open>{timestamp, task_id, data: {result?: {actions?, is_done?}}}\<close>.
  \<open>sr_is_done = Some b\<close> is the JSON boolean \<open>b\<close>; \<open>None\<close> is a missing or non-boolean
  \<^verbatim>\<open>is_done\<close>, which \<^verbatim>\<open>=== true\<close> rejects. Actions are opaque.
\<close>

record server_result =
  sr_actions :: "string list option"
  sr_is_done :: "bool option"

record server_data =
  sd_result :: "server_result option"

record update_response =
  ur_timestamp :: string
  ur_task_id :: string
  ur_data :: "server_data option"

text \<open>
  The durable store (\<^verbatim>\<open>chrome.storage.local\<close>): a map from the seven keys the extension
  uses to JSON values. \<open>NullV\<close> is a key stored with the value \<^verbatim>\<open>null\<close>, which differs from
  an absent key.
\<close>

datatype skey =
  K_activeSession | K_taskState | K_currentDOMUpdate | K_lastUpdateResponse |
  K_iterationResults | K_isMinimized | K_sidePanelState

datatype stored =
  SessionV session | TaskStateV taskState | UpdateResponseV update_response |
  NullV | OpaqueV string

type_synonym storage = "skey \<Rightarrow> stored option"

text \<open>Reading a key the way the optional chains of the source do.\<close>

definition stored_session :: "storage \<Rightarrow> session option" where
  "stored_session st = (case st K_activeSession of Some (SessionV a) \<Rightarrow> Some a | _ \<Rightarrow> None)"

definition stored_taskState :: "storage \<Rightarrow> taskState option" where
  "stored_taskState st = (case st K_taskState of Some (TaskStateV t) \<Rightarrow> Some t | _ \<Rightarrow> None)"

definition stored_lastUpdateResponse :: "storage \<Rightarrow> update_response option" where
  "stored_lastUpdateResponse st =
     (case st K_lastUpdateResponse of Some (UpdateResponseV r) \<Rightarrow> Some r | _ \<Rightarrow> None)"

definition remove_keys :: "skey list \<Rightarrow> storage \<Rightarrow> storage" where
  "remove_keys ks st = (\<lambda>k. if k \<in> set ks then None else st k)"

text \<open>
  Messages published with \<^verbatim>\<open>chrome.runtime.sendMessage\<close> or sent to a tab, and the effects
  a handler performs, in the order it issues them. \<open>M_stopMonitoring\<close> is the coordinator's
  broadcast \<^verbatim>\<open>{type: 'stopMonitoring', status}\<close>; \<open>M_stopRequest\<close> is the page's message
  \<^verbatim>\<open>{type: 'stopMonitoring'}\<close>, which carries no status.
\<close>

datatype msg =
  M_stopMonitoring task_status | M_pauseStateChanged bool |
  M_processingStatusUpdate string processing_status | M_iterationUpdate nat |
  M_invalidURL | M_stopAutomation | M_stopRequest

datatype effect =
  StorageSet skey stored | StorageRemove "skey list" | Broadcast msg |
  TabMessage nat msg | RemoteCreate string | Navigate "nat option" string

text \<open>
  The module-level variables of the coordinator, the closure variable
  \<^verbatim>\<open>isUpdateInProgress\<close> of the running \<^verbatim>\<open>startMonitoring\<close> call, and the durable store.
  \<open>monitoringInterval\<close> tells whether a timer is armed.
\<close>

record coordinator =
  monitoringInterval :: bool
  currentIterations :: nat
  isPaused :: bool
  lastUpdateResponse :: "update_response option"
  activeSession :: "session option"
  isUpdateInProgress :: bool
  storage :: storage

section \<open>Tabs and the Tab Locator\<close>

datatype tab_status = Unloaded | Loading | Complete

record tab =
  tab_id :: "nat option"
  tab_url :: "string option"
  tab_status :: "tab_status option"
  tab_active :: bool

text \<open>JavaScript truthiness of \<^verbatim>\<open>tab.id\<close> (a number) and \<^verbatim>\<open>tab.url\<close> (a string).\<close>

definition truthy_id :: "tab \<Rightarrow> bool" where
  "truthy_id t = (case tab_id t of None \<Rightarrow> False | Some n \<Rightarrow> n \<noteq> 0)"

definition truthy_url :: "tab \<Rightarrow> bool" where
  "truthy_url t = (case tab_url t of None \<Rightarrow> False | Some u \<Rightarrow> u \<noteq> [])"

text \<open>A browser call either throws or returns.\<close>

datatype 'a query = QueryThrew | QueryOk 'a

text \<open>
  One attempt of \<^verbatim>\<open>getValidTab\<close>: the first tab of the active-tab query is used when it
  has an id and a URL and its status is \<^verbatim>\<open>complete\<close> or \<^verbatim>\<open>loading\<close>.
\<close>

definition usable_tab :: "tab list query \<Rightarrow> tab option" where
  "usable_tab q =
     (case q of
        QueryThrew \<Rightarrow> None
      | QueryOk [] \<Rightarrow> None
      | QueryOk (t # _) \<Rightarrow>
          if truthy_id t \<and> truthy_url t \<and>
             (tab_status t = Some Complete \<or> tab_status t = Some Loading)
          then Some t else None)"

text \<open>
  The retry loop \<^verbatim>\<open>for (attempt = 1; attempt <= maxRetries; attempt++)\<close>. \<open>q n\<close> is what the
  \<open>n\<close>-th active-tab query does. The result is the tab (if any), the delays waited, in
  milliseconds, and the number of queries made. A failed attempt, thrown or not, waits
  \<open>retryDelay\<close> and multiplies it by 1.5 unless it was the last. The delay is a rational:
  for the default arguments every product \<open>1000 * 1.5^k\<close> is a binary fraction a double
  holds exactly.
\<close>

function getValidTab_attempts ::
  "(nat \<Rightarrow> tab list query) \<Rightarrow> nat \<Rightarrow> rat \<Rightarrow> nat \<Rightarrow> tab option \<times> rat list \<times> nat" where
  "getValidTab_attempts q maxRetries retryDelay attempt =
     (if attempt \<le> maxRetries then
        (case usable_tab (q attempt) of
           Some t \<Rightarrow> (Some t, [], attempt)
         | None \<Rightarrow>
             if attempt < maxRetries then
               (case getValidTab_attempts q maxRetries (retryDelay * (3 / 2)) (attempt + 1) of
                  (r, ds, n) \<Rightarrow> (r, retryDelay # ds, n))
             else getValidTab_attempts q maxRetries retryDelay (attempt + 1))
      else (None, [], attempt - 1))"
  by pat_completeness auto
termination
  by (relation "measure (\<lambda>(q, maxRetries, retryDelay, attempt). Suc maxRetries - attempt)") auto

declare getValidTab_attempts.simps [simp del]

text \<open>
  The fallback after the loop: the first tab flagged active among all tabs, if it has an
  id and a URL; else the first tab with an id and a URL that does not start with
  \<^verbatim>\<open>chrome://\<close>; a throwing query is caught and gives nothing.
\<close>

definition last_resort :: "tab \<Rightarrow> bool" where
  "last_resort t =
     (truthy_id t \<and>
      (case tab_url t of None \<Rightarrow> False | Some u \<Rightarrow> u \<noteq> [] \<and> \<not> startsWith u ''chrome://''))"

definition first_of :: "'a list \<Rightarrow> 'a option" where
  "first_of xs = (case xs of [] \<Rightarrow> None | x # _ \<Rightarrow> Some x)"

definition fallback_tab :: "tab list query \<Rightarrow> tab option" where
  "fallback_tab qall =
     (case qall of
        QueryThrew \<Rightarrow> None
      | QueryOk allTabs \<Rightarrow>
          (case first_of (filter tab_active allTabs) of
             Some a \<Rightarrow>
               if truthy_id a \<and> truthy_url a then Some a
               else first_of (filter last_resort allTabs)
           | None \<Rightarrow> first_of (filter last_resort allTabs)))"

definition getValidTab ::
  "nat \<Rightarrow> rat \<Rightarrow> (nat \<Rightarrow> tab list query) \<Rightarrow> tab list query \<Rightarrow> tab option \<times> rat list \<times> nat" where
  "getValidTab maxRetries retryDelay q qall =
     (case getValidTab_attempts q maxRetries retryDelay 1 of
        (Some t, ds, n) \<Rightarrow> (Some t, ds, n)
      | (None, ds, n) \<Rightarrow> (fallback_tab qall, ds, n))"

section \<open>The Content Bridge\<close>

text \<open>
  The reply of the page agent to \<^verbatim>\<open>singleDOMProcess\<close>: \<^verbatim>\<open>{success, error?, isDone?}\<close>, the
  flags by their truthiness.
\<close>

record response =
  success :: bool
  error :: "string option"
  isDone :: bool

text \<open>
  What one \<^verbatim>\<open>attemptSend\<close> meets: whether the ping is answered, whether the injection of
  the content script (tried only after an unanswered ping) succeeds, and what the
  callback of the \<^verbatim>\<open>singleDOMProcess\<close> message sees: \<^verbatim>\<open>chrome.runtime.lastError\<close> with its
  message, or the result, which may be \<^verbatim>\<open>undefined\<close>.
\<close>

datatype reply = LastError string | Result "response option"

record bridge_attempt =
  ping_ok :: bool
  inject_ok :: bool
  reply :: reply

datatype send_error = InjectError | TypeError | MaxRetriesError

definition attemptSend :: "bridge_attempt \<Rightarrow> send_error + response option" where
  "attemptSend a =
     (if \<not> ping_ok a \<and> \<not> inject_ok a then Inl InjectError
      else (case reply a of
              LastError m \<Rightarrow> Inr (Some \<lparr>success = False, error = Some m, isDone = False\<rparr>)
            | Result r \<Rightarrow> Inr r))"

text \<open>\<^verbatim>\<open>String.prototype.includes\<close>: the pattern occurs somewhere in the string.\<close>

fun str_includes :: "string \<Rightarrow> string \<Rightarrow> bool" where
  "str_includes [] pat = (pat = [])"
| "str_includes (c # s) pat = (prefix pat (c # s) \<or> str_includes s pat)"

text \<open>
  The test \<^verbatim>\<open>response.success || !response.error?.includes('back/forward cache')\<close>
  that ends the retry loop.
\<close>

definition bfcache_failure :: "response \<Rightarrow> bool" where
  "bfcache_failure r =
     (\<not> success r \<and>
      (case error r of None \<Rightarrow> False | Some e \<Rightarrow> str_includes e ''back/forward cache''))"

text \<open>
  The loop \<^verbatim>\<open>while (retryCount < maxRetries)\<close> of \<^verbatim>\<open>sendProcessMessage\<close>. \<open>bridge n\<close> is what
  the attempt made with \<open>retryCount = n\<close> meets; it stands for the page agent of the tab
  answering for the task. The result is the response or the exception, the progressive
  delays \<^verbatim>\<open>1000 * retryCount\<close> waited between attempts, and the number of attempts made.
  An injection error propagates; reading \<^verbatim>\<open>success\<close> of an undefined response is a
  \<^verbatim>\<open>TypeError\<close>. The fixed waits inside an attempt are not recorded.
\<close>

function sendProcessMessage_loop ::
  "(nat \<Rightarrow> bridge_attempt) \<Rightarrow> nat \<Rightarrow> nat \<Rightarrow> (send_error + response) \<times> nat list \<times> nat" where
  "sendProcessMessage_loop bridge maxRetries retryCount =
     (if retryCount < maxRetries then
        (case attemptSend (bridge retryCount) of
           Inl e \<Rightarrow> (Inl e, [], retryCount + 1)
         | Inr None \<Rightarrow> (Inl TypeError, [], retryCount + 1)
         | Inr (Some r) \<Rightarrow>
             if \<not> bfcache_failure r then (Inr r, [], retryCount + 1)
             else
               (case sendProcessMessage_loop bridge maxRetries (retryCount + 1) of
                  (res, ds, n) \<Rightarrow>
                    (res,
                     (if retryCount + 1 < maxRetries then [1000 * (retryCount + 1)] else []) @ ds,
                     n)))
      else (Inl MaxRetriesError, [], retryCount))"
  by pat_completeness auto
termination
  by (relation "measure (\<lambda>(bridge, maxRetries, retryCount). maxRetries - retryCount)") auto

declare sendProcessMessage_loop.simps [simp del]

definition sendProcessMessage ::
  "nat \<Rightarrow> (nat \<Rightarrow> bridge_attempt) \<Rightarrow> (send_error + response) \<times> nat list \<times> nat" where
  "sendProcessMessage maxRetries bridge = sendProcessMessage_loop bridge maxRetries 0"

section \<open>The Session Manager of the loop-based coordinator\<close>

text \<open>
  Every operation takes the coordinator's state and returns the new state with the
  effects issued. Storage calls are taken to succeed, and a callback of an un-awaited
  storage call is run where it is registered; timestamps are parameters.
\<close>

definition updateProcessingStatus ::
  "string \<Rightarrow> processing_status \<Rightarrow> string \<Rightarrow> coordinator \<Rightarrow> coordinator \<times> effect list" where
  "updateProcessingStatus task_id st now s =
     (let old = (case stored_taskState (storage s) of None \<Rightarrow> empty_taskState | Some t \<Rightarrow> t);
          new = old\<lparr>ts_processingStatus := Some st, ts_lastUpdateTimestamp := Some now\<rparr>
      in (s\<lparr>storage := (storage s)(K_taskState \<mapsto> TaskStateV new)\<rparr>,
          [StorageSet K_taskState (TaskStateV new),
           Broadcast (M_processingStatusUpdate task_id st)]))"

text \<open>
  \<^verbatim>\<open>stopMonitoring(finalStatus = 'idle')\<close>. \<open>tabs\<close> is the answer to its active-tab query,
  whose callback notifies the first tab if it has an id.
\<close>

definition stop_keys :: "skey list" where
  "stop_keys = [K_activeSession, K_currentDOMUpdate, K_lastUpdateResponse, K_iterationResults]"

definition stopMonitoring ::
  "task_status \<Rightarrow> tab list \<Rightarrow> coordinator \<Rightarrow> coordinator \<times> effect list" where
  "stopMonitoring finalStatus tabs s =
     (let old = (case stored_taskState (storage s) of None \<Rightarrow> empty_taskState | Some t \<Rightarrow> t);
          new = old\<lparr>ts_status := Some finalStatus, ts_isRunning := Some False,
                     ts_isPaused := Some False\<rparr>
      in (s\<lparr>currentIterations := 0, isPaused := False, activeSession := None,
             storage := remove_keys stop_keys ((storage s)(K_taskState \<mapsto> TaskStateV new))\<rparr>,
          [StorageSet K_taskState (TaskStateV new), StorageRemove stop_keys,
           Broadcast (M_stopMonitoring finalStatus)] @
          (case tabs of
             t # _ \<Rightarrow> (case tab_id t of
                          Some n \<Rightarrow> if n \<noteq> 0 then [TabMessage n M_stopAutomation] else []
                        | None \<Rightarrow> [])
           | [] \<Rightarrow> [])))"

text \<open>The handler of the \<^verbatim>\<open>resetIterations\<close> message (the same text in both coordinators).\<close>

definition resetIterations :: "coordinator \<Rightarrow> coordinator" where
  "resetIterations s = s\<lparr>currentIterations := 0\<rparr>"

text \<open>
  \<^verbatim>\<open>pauseMonitoring\<close> and \<^verbatim>\<open>resumeMonitoring\<close> (the same text in both coordinators): the
  module flag, the session's \<^verbatim>\<open>isPaused\<close> field and its stored copy, the broadcast, and the
  storage callback that updates the processing status when a task state is stored.
\<close>

definition set_paused :: "bool \<Rightarrow> processing_status \<Rightarrow> string \<Rightarrow> coordinator \<Rightarrow> coordinator \<times> effect list" where
  "set_paused b st now s =
     (let s1 = s\<lparr>isPaused := b\<rparr>;
          (s2, e2) =
            (case activeSession s1 of
               None \<Rightarrow> (s1, [])
             | Some a \<Rightarrow>
                 (let a' = a\<lparr>sessionIsPaused := Some b\<rparr>
                  in (s1\<lparr>activeSession := Some a',
                         storage := (storage s1)(K_activeSession \<mapsto> SessionV a')\<rparr>,
                      [StorageSet K_activeSession (SessionV a')])));
          (s3, e3) =
            (case stored_taskState (storage s2) of
               None \<Rightarrow> (s2, [])
             | Some _ \<Rightarrow>
                 updateProcessingStatus
                   (case activeSession s2 of None \<Rightarrow> [] | Some a \<Rightarrow> taskId a) st now s2)
      in (s3, e2 @ [Broadcast (M_pauseStateChanged b)] @ e3))"

definition pauseMonitoring :: "string \<Rightarrow> coordinator \<Rightarrow> coordinator \<times> effect list" where
  "pauseMonitoring now s = set_paused True P_paused now s"

definition resumeMonitoring :: "string \<Rightarrow> coordinator \<Rightarrow> coordinator \<times> effect list" where
  "resumeMonitoring now s = set_paused False P_idle now s"







section \<open>The Session Manager of the interval-based coordinator\<close>


text \<open>
  \<^verbatim>\<open>stopMonitoring()\<close>: the timer is cleared; when a task state is stored, its processing
  status is reset and \<^verbatim>\<open>currentDOMUpdate\<close> is stored as \<^verbatim>\<open>null\<close>. Nothing else changes.
\<close>

definition stopMonitoring_interval :: "string \<Rightarrow> coordinator \<Rightarrow> coordinator \<times> effect list" where
  "stopMonitoring_interval now s =
     (let s1 = s\<lparr>monitoringInterval := False\<rparr>
      in case stored_taskState (storage s1) of
           None \<Rightarrow> (s1, [])
         | Some t \<Rightarrow>
             (let new = t\<lparr>ts_processingStatus := Some P_idle, ts_lastUpdateTimestamp := Some now\<rparr>
              in (s1\<lparr>storage := (storage s1)(K_taskState \<mapsto> TaskStateV new,
                                               K_currentDOMUpdate \<mapsto> NullV)\<rparr>,
                  [StorageSet K_taskState (TaskStateV new),
                   StorageSet K_currentDOMUpdate NullV])))"

section \<open>Completion check\<close>

text \<open>
  The three signals read from the durable store, as both the \<^verbatim>\<open>check_processing_status\<close>
  handler of the loop-based coordinator and \<^verbatim>\<open>checkIfProcessingDone\<close> compute them.
\<close>

definition sessionDone :: "storage \<Rightarrow> bool" where
  "sessionDone st = (case stored_session st of None \<Rightarrow> False | Some a \<Rightarrow> status a = S_completed)"

definition lastUpdateDone :: "storage \<Rightarrow> bool" where
  "lastUpdateDone st =
     (case stored_lastUpdateResponse st of
        None \<Rightarrow> False
      | Some r \<Rightarrow>
          (case ur_data r of
             None \<Rightarrow> False
           | Some d \<Rightarrow>
               (case sd_result d of None \<Rightarrow> False | Some res \<Rightarrow> sr_is_done res = Some True)))"

definition processingDone :: "storage \<Rightarrow> bool" where
  "processingDone st =
     (case stored_taskState st of
        None \<Rightarrow> False
      | Some t \<Rightarrow> ts_processingStatus t = Some P_completed)"

definition check_processing_status :: "storage \<Rightarrow> bool" where
  "check_processing_status st = (sessionDone st \<or> lastUpdateDone st \<or> processingDone st)"

definition check_processing_status_interval :: "storage \<Rightarrow> bool" where
  "check_processing_status_interval st =
     (case stored_session st of None \<Rightarrow> False | Some a \<Rightarrow> status a = S_completed)"

text \<open>
  \<^verbatim>\<open>checkIfProcessingDone\<close> in the page: the three signals from the store first; if none
  holds, the answer of the background handler, given here as the message reply
  (\<open>None\<close>: no reply or one without a boolean \<^verbatim>\<open>isDone\<close>).
\<close>

definition checkIfProcessingDone :: "storage \<Rightarrow> bool option \<Rightarrow> bool" where
  "checkIfProcessingDone st handler_reply =
     (if sessionDone st \<or> lastUpdateDone st \<or> processingDone st then True
      else (case handler_reply of Some b \<Rightarrow> b | None \<Rightarrow> False))"

section \<open>The Iteration Engine of the loop-based coordinator\<close>

text \<open>
  What one iteration meets in the browser: the active-tab queries and the all-tabs query
  of \<^verbatim>\<open>getValidTab\<close>, the bridge of \<^verbatim>\<open>sendProcessMessage\<close>, the answer to the active-tab
  query of every \<^verbatim>\<open>stopMonitoring\<close> that runs during the iteration, and the task id the
  page agent was asked to work on.
\<close>

record browser =
  br_active :: "nat \<Rightarrow> tab list query"
  br_all :: "tab list query"
  br_bridge :: "nat \<Rightarrow> bridge_attempt"
  br_stop_tabs :: "tab list"
  br_task_id :: string

text \<open>
  \<^verbatim>\<open>processOneIteration\<close> in two parts. \<open>iteration_begin\<close> is the synchronous prefix up to
  the first \<^verbatim>\<open>await\<close>: the three guards, then the in-progress flag and the counter.
  \<open>iteration_body\<close> is the rest of the \<^verbatim>\<open>try\<close> block with its \<^verbatim>\<open>catch\<close>, and
  \<open>iteration_finish\<close> adds the \<^verbatim>\<open>finally\<close> clause. The boolean is the function's value:
  whether the loop goes on.
\<close>

datatype begin_result = Skipped bool | Started

definition iteration_begin :: "coordinator \<Rightarrow> begin_result \<times> coordinator" where
  "iteration_begin s =
     (case activeSession s of
        None \<Rightarrow> (Skipped False, s)
      | Some a \<Rightarrow>
          if status a \<noteq> S_active then (Skipped False, s)
          else if isPaused s then (Skipped True, s)
          else if isUpdateInProgress s then (Skipped True, s)
          else (Started,
                s\<lparr>isUpdateInProgress := True, currentIterations := currentIterations s + 1\<rparr>))"

definition record_iterations :: "coordinator \<Rightarrow> coordinator \<times> effect list" where
  "record_iterations s =
     (case stored_taskState (storage s) of
        None \<Rightarrow> (s, [])
      | Some t \<Rightarrow>
          (let new = t\<lparr>ts_iterations := Some (currentIterations s)\<rparr>
           in (s\<lparr>storage := (storage s)(K_taskState \<mapsto> TaskStateV new)\<rparr>,
               [StorageSet K_taskState (TaskStateV new)])))"

definition mark_completed :: "coordinator \<Rightarrow> coordinator \<times> effect list" where
  "mark_completed s =
     (case activeSession s of
        None \<Rightarrow> (s, [])
      | Some a \<Rightarrow>
          (let a' = a\<lparr>status := S_completed\<rparr>
           in (s\<lparr>activeSession := Some a',
                 storage := (storage s)(K_activeSession \<mapsto> SessionV a')\<rparr>,
               [StorageSet K_activeSession (SessionV a')])))"

definition iteration_body :: "browser \<Rightarrow> coordinator \<Rightarrow> bool \<times> coordinator \<times> effect list" where
  "iteration_body b s =
     (case getValidTab 5 1000 (br_active b) (br_all b) of
        (None, _, _) \<Rightarrow> (False, s, [])
      | (Some currentTab, _, _) \<Rightarrow>
          if \<not> isValidUrl_opt (tab_url currentTab) then (False, s, [Broadcast M_invalidURL])
          else
            (case sendProcessMessage 10 (br_bridge b) of
               (Inl exn, _, _) \<Rightarrow>
                 (case stopMonitoring T_error (br_stop_tabs b) s of (s', e') \<Rightarrow> (False, s', e'))
             | (Inr r, _, _) \<Rightarrow>
                 (let (s1, e1) = record_iterations s;
                      e2 = [Broadcast (M_iterationUpdate (currentIterations s1))]
                  in if success r then
                       (if isDone r then
                          (let (s2, e3) = mark_completed s1;
                               (s3, e4) = stopMonitoring T_completed (br_stop_tabs b) s2
                           in (False, s3, e1 @ e2 @ e3 @ e4))
                        else (True, s1, e1 @ e2))
                     else
                       (case stopMonitoring T_error (br_stop_tabs b) s1 of
                          (s', e') \<Rightarrow> (False, s', e1 @ e2 @ e')))))"

definition iteration_finish :: "browser \<Rightarrow> coordinator \<Rightarrow> bool \<times> coordinator \<times> effect list" where
  "iteration_finish b s =
     (case iteration_body b s of (r, s', e) \<Rightarrow> (r, s'\<lparr>isUpdateInProgress := False\<rparr>, e))"

text \<open>
  An iteration is a done iteration when a tab with a valid address is found and the
  dispatch returns a successful response with \<^verbatim>\<open>isDone\<close>.
\<close>

definition dispatch_done :: "browser \<Rightarrow> bool" where
  "dispatch_done b =
     (case getValidTab 5 1000 (br_active b) (br_all b) of
        (Some t, _, _) \<Rightarrow>
          isValidUrl_opt (tab_url t) \<and>
          (case sendProcessMessage 10 (br_bridge b) of
             (Inr r, _, _) \<Rightarrow> success r \<and> isDone r
           | (Inl _, _, _) \<Rightarrow> False)
      | (None, _, _) \<Rightarrow> False)"

text \<open>
  The page's side of a finished task, the end of \<^verbatim>\<open>singleDOMProcessIteration\<close> when the
  server's reply has \<^verbatim>\<open>is_done\<close>, which runs before the page replies
  \<^verbatim>\<open>{success: true, isDone: true}\<close>: the completion is published, a stored session gets
  status \<^verbatim>\<open>completed\<close> (in the callback of a storage read that is not awaited), and the
  coordinator is asked to stop.
\<close>

definition announce_done :: "string \<Rightarrow> storage \<Rightarrow> storage \<times> effect list" where
  "announce_done task_id st =
     (case stored_session st of
        None \<Rightarrow>
          (st, [Broadcast (M_processingStatusUpdate task_id P_completed), Broadcast M_stopRequest])
      | Some a \<Rightarrow>
          (st(K_activeSession \<mapsto> SessionV (a\<lparr>status := S_completed\<rparr>)),
           [Broadcast (M_processingStatusUpdate task_id P_completed),
            StorageSet K_activeSession (SessionV (a\<lparr>status := S_completed\<rparr>)),
            Broadcast M_stopRequest]))"

text \<open>
  What happens in the coordinator's world while the dispatch of a started iteration is
  pending. A done reply is sent only after the page has awaited the answer to its stop
  request, and the coordinator's handler answers that request after calling
  \<^verbatim>\<open>stopMonitoring()\<close>, with the default final status \<^verbatim>\<open>idle\<close>. So before a done reply
  is read, the page's write and that stop have happened; the stop is taken as a whole.
  The other messages of the page (the DOM update and the status updates) are left out:
  they write the keys \<^verbatim>\<open>taskState\<close>, \<^verbatim>\<open>currentDOMUpdate\<close>, \<^verbatim>\<open>lastUpdateResponse\<close> and
  \<^verbatim>\<open>iterationResults\<close>, and a failed update stops with \<^verbatim>\<open>error\<close> before the failing reply,
  which the coordinator answers with the same stop.
\<close>

definition while_pending :: "browser \<Rightarrow> coordinator \<Rightarrow> coordinator \<times> effect list" where
  "while_pending b s =
     (if dispatch_done b then
        (case announce_done (br_task_id b) (storage s) of
           (st', e1) \<Rightarrow>
             (case stopMonitoring T_idle (br_stop_tabs b) (s\<lparr>storage := st'\<rparr>) of
                (s', e2) \<Rightarrow> (s', e1 @ e2)))
      else (s, []))"

text \<open>
  The whole call: the prefix, what happens while the dispatch is pending, and the rest
  of the body in the state it then finds.
\<close>

definition processOneIteration :: "browser \<Rightarrow> coordinator \<Rightarrow> bool \<times> coordinator \<times> effect list" where
  "processOneIteration b s =
     (case iteration_begin s of
        (Skipped r, s') \<Rightarrow> (r, s', [])
      | (Started, s') \<Rightarrow>
          (case while_pending b s' of
             (s1, e1) \<Rightarrow>
               (case iteration_finish b s1 of (r, s2, e2) \<Rightarrow> (r, s2, e1 @ e2))))"

text \<open>
  \<^verbatim>\<open>monitoringLoop\<close>: \<^verbatim>\<open>while (activeSession && activeSession.status === 'active')\<close>. The loop
  need not end, so it runs on a list with one browser per cycle; running out of cycles
  while the guard still holds is the value \<open>Still_running\<close>.
\<close>

datatype loop_end = Loop_exited | Still_running

definition session_active :: "coordinator \<Rightarrow> bool" where
  "session_active s = (case activeSession s of None \<Rightarrow> False | Some a \<Rightarrow> status a = S_active)"

fun monitoringLoop :: "browser list \<Rightarrow> coordinator \<Rightarrow> loop_end \<times> coordinator \<times> effect list" where
  "monitoringLoop [] s = (if session_active s then Still_running else Loop_exited, s, [])"
| "monitoringLoop (b # bs) s =
     (if session_active s then
        (if \<not> isPaused s then
           (case processOneIteration b s of
              (shouldContinue, s', e) \<Rightarrow>
                if \<not> shouldContinue then (Loop_exited, s', e)
                else (case monitoringLoop bs s' of (x, s'', e') \<Rightarrow> (x, s'', e @ e')))
         else monitoringLoop bs s)
      else (Loop_exited, s, []))"

text \<open>
  \<^verbatim>\<open>startMonitoring\<close> up to the loop: the counter and the pause flag are reset, the initial
  tab is resolved and, on an invalid page, navigated away from. The boolean tells whether
  the loop is entered, with a fresh \<^verbatim>\<open>isUpdateInProgress = false\<close>.
\<close>

definition startMonitoring_init ::
  "browser \<Rightarrow> bool \<Rightarrow> coordinator \<Rightarrow> bool \<times> coordinator \<times> effect list" where
  "startMonitoring_init b navigate_ok s =
     (let s0 = s\<lparr>monitoringInterval := False, currentIterations := 0, isPaused := False\<rparr>
      in case getValidTab 5 1000 (br_active b) (br_all b) of
           (None, _, _) \<Rightarrow>
             (case stopMonitoring T_error (br_stop_tabs b) s0 of (s', e') \<Rightarrow> (False, s', e'))
         | (Some initialTab, _, _) \<Rightarrow>
             if isValidUrl_opt (tab_url initialTab) then
               (True, s0\<lparr>isUpdateInProgress := False\<rparr>, [])
             else if navigate_ok then
               (True, s0\<lparr>isUpdateInProgress := False\<rparr>,
                [Navigate (tab_id initialTab) ''https://www.google.com''])
             else
               (case stopMonitoring T_error (br_stop_tabs b) s0 of (s', e') \<Rightarrow> (False, s', e')))"

definition startMonitoring ::
  "browser \<Rightarrow> bool \<Rightarrow> browser list \<Rightarrow> coordinator \<Rightarrow> loop_end \<times> coordinator \<times> effect list" where
  "startMonitoring b navigate_ok cycles s =
     (case startMonitoring_init b navigate_ok s of
        (False, s', e) \<Rightarrow> (Loop_exited, s', e)
      | (True, s', e) \<Rightarrow>
          (case monitoringLoop cycles s' of (x, s'', e') \<Rightarrow> (x, s'', e @ e')))"

section \<open>The Iteration Engine of the interval-based coordinator\<close>

text \<open>
  What one iteration meets: the active-tab query, the one delivery attempt, the time
  (for a \<^verbatim>\<open>stopMonitoring\<close> during the iteration) and the task id the page agent was
  asked to work on.
\<close>

record interval_env =
  ie_tabs :: "tab list query"
  ie_attempt :: bridge_attempt
  ie_now :: string
  ie_task_id :: string

text \<open>
  \<^verbatim>\<open>processOneIteration\<close> of the interval-based coordinator: two guards, then the flag. The
  counter is incremented inside \<^verbatim>\<open>if (response?.success)\<close>. The boolean of
  \<open>iteration_begin_interval\<close> tells whether the body was entered.
\<close>

definition iteration_begin_interval :: "coordinator \<Rightarrow> bool \<times> coordinator" where
  "iteration_begin_interval s =
     (if isPaused s then (False, s)
      else if isUpdateInProgress s then (False, s)
      else (True, s\<lparr>isUpdateInProgress := True\<rparr>))"

definition processable :: "tab list \<Rightarrow> bool" where
  "processable tabs =
     (case tabs of
        [] \<Rightarrow> False
      | t # _ \<Rightarrow> truthy_id t \<and> truthy_url t \<and> isValidUrl_opt (tab_url t))"

definition iteration_body_interval :: "interval_env \<Rightarrow> coordinator \<Rightarrow> coordinator \<times> effect list" where
  "iteration_body_interval env s =
     (case ie_tabs env of
        QueryThrew \<Rightarrow> (s, [])
      | QueryOk tabs \<Rightarrow>
          if \<not> processable tabs then (s\<lparr>isUpdateInProgress := False\<rparr>, [])
          else
            (case attemptSend (ie_attempt env) of
               Inl exn \<Rightarrow> (s, [])
             | Inr None \<Rightarrow> (s, [])
             | Inr (Some r) \<Rightarrow>
                 if success r then
                   (let s1 = s\<lparr>currentIterations := currentIterations s + 1\<rparr>;
                        e1 = [Broadcast (M_iterationUpdate (currentIterations s1))];
                        (s2, e2) = record_iterations s1
                    in if isDone r then
                         (let (s3, e3) = mark_completed s2;
                              (s4, e4) = stopMonitoring_interval (ie_now env) s3
                          in (s4, e1 @ e2 @ e3 @ e4))
                       else (s2, e1 @ e2))
                 else (s, [])))"

definition iteration_finish_interval :: "interval_env \<Rightarrow> coordinator \<Rightarrow> coordinator \<times> effect list" where
  "iteration_finish_interval env s =
     (case iteration_body_interval env s of (s', e) \<Rightarrow> (s'\<lparr>isUpdateInProgress := False\<rparr>, e))"

text \<open>
  As in the loop-based coordinator, a done reply comes after the page's write and its
  stop request, which this coordinator's handler answers after its own
  \<^verbatim>\<open>stopMonitoring()\<close>.
\<close>

definition dispatch_done_interval :: "interval_env \<Rightarrow> bool" where
  "dispatch_done_interval env =
     (case ie_tabs env of
        QueryThrew \<Rightarrow> False
      | QueryOk tabs \<Rightarrow>
          processable tabs \<and>
          (case attemptSend (ie_attempt env) of
             Inr (Some r) \<Rightarrow> success r \<and> isDone r
           | _ \<Rightarrow> False))"

definition while_pending_interval :: "interval_env \<Rightarrow> coordinator \<Rightarrow> coordinator \<times> effect list" where
  "while_pending_interval env s =
     (if dispatch_done_interval env then
        (case announce_done (ie_task_id env) (storage s) of
           (st', e1) \<Rightarrow>
             (case stopMonitoring_interval (ie_now env) (s\<lparr>storage := st'\<rparr>) of
                (s', e2) \<Rightarrow> (s', e1 @ e2)))
      else (s, []))"

definition processOneIteration_interval ::
  "interval_env \<Rightarrow> coordinator \<Rightarrow> coordinator \<times> effect list" where
  "processOneIteration_interval env s =
     (case iteration_begin_interval s of
        (False, s') \<Rightarrow> (s', [])
      | (True, s') \<Rightarrow>
          (case while_pending_interval env s' of
             (s1, e1) \<Rightarrow>
               (case iteration_finish_interval env s1 of (s2, e2) \<Rightarrow> (s2, e1 @ e2))))"

text \<open>
  \<^verbatim>\<open>startMonitoring\<close> of the interval-based coordinator up to its first iteration: the old
  timer is cleared, counter and pause flag are reset, a new timer is armed.
\<close>

definition startMonitoring_init_interval :: "coordinator \<Rightarrow> coordinator" where
  "startMonitoring_init_interval s =
     s\<lparr>currentIterations := 0, isPaused := False, isUpdateInProgress := False,
       monitoringInterval := True\<rparr>"

section \<open>Interleaving of monitoring calls and suspended iterations\<close>

text \<open>
  The coordinator runs on one thread; an \<^verbatim>\<open>async\<close> function runs until its first
  \<^verbatim>\<open>await\<close>, and other handlers run while it is suspended. Every call of
  \<^verbatim>\<open>startMonitoring\<close> declares its own \<^verbatim>\<open>isUpdateInProgress\<close>, which the
  \<^verbatim>\<open>processOneIteration\<close> of that call closes over, and the message handler starts a call
  for every \<^verbatim>\<open>startMonitoring\<close> message. A \<open>closure\<close> is the flag of one call with the
  number of bodies of its \<^verbatim>\<open>processOneIteration\<close> that have passed the guards and not
  yet left the \<^verbatim>\<open>finally\<close> clause; a \<open>machine\<close> is the module's state with the closures of
  the calls made so far. The field \<open>isUpdateInProgress\<close> of the coordinator record stands
  for the flag of the call whose code is running: a step loads the flag of the closure it
  runs and writes it back, and between steps the field is down.
\<close>

record closure =
  in_progress :: bool
  bodies :: nat

record machine =
  coord :: coordinator
  closures :: "closure list"

definition inflight :: "machine \<Rightarrow> nat" where
  "inflight m = sum_list (map bodies (closures m))"

definition load :: "closure \<Rightarrow> coordinator \<Rightarrow> coordinator" where
  "load c s = s\<lparr>isUpdateInProgress := in_progress c\<rparr>"

definition park :: "coordinator \<Rightarrow> coordinator" where
  "park s = s\<lparr>isUpdateInProgress := False\<rparr>"

text \<open>
  Events of the loop-based coordinator. \<open>Start\<close> is a \<^verbatim>\<open>startMonitoring\<close> message: the
  call runs up to its loop and, if the loop is entered, adds a closure with its fresh
  flag. \<open>Trigger i\<close> is the loop of call \<open>i\<close> calling \<^verbatim>\<open>processOneIteration\<close>, which runs
  \<open>iteration_begin\<close>; \<open>Finish i\<close> resumes a suspended body of call \<open>i\<close> and runs it to
  its end (it is not enabled when none is suspended); pause, resume and stop are the
  message handlers. The awaits inside the rest of a body are taken together; a flag and
  a count change only at the two ends of a body.
\<close>

datatype event =
  Start browser bool | Trigger nat | Finish nat browser | Pause string | Resume string |
  Stop task_status "tab list"

definition step :: "event \<Rightarrow> machine \<Rightarrow> machine" where
  "step ev m =
     (case ev of
        Start b navigate_ok \<Rightarrow>
          (case startMonitoring_init b navigate_ok (coord m) of
             (entered, s', e) \<Rightarrow>
               if entered then
                 m\<lparr>coord := park s',
                   closures := closures m @ [\<lparr>in_progress = isUpdateInProgress s', bodies = 0\<rparr>]\<rparr>
               else m\<lparr>coord := park s'\<rparr>)
      | Trigger i \<Rightarrow>
          if i < length (closures m) then
            (case iteration_begin (load (closures m ! i) (coord m)) of
               (Started, s') \<Rightarrow>
                 m\<lparr>coord := park s',
                   closures := (closures m)
                     [i := \<lparr>in_progress = isUpdateInProgress s',
                            bodies = bodies (closures m ! i) + 1\<rparr>]\<rparr>
             | (Skipped _, s') \<Rightarrow> m\<lparr>coord := park s'\<rparr>)
          else m
      | Finish i b \<Rightarrow>
          if i < length (closures m) \<and> bodies (closures m ! i) \<noteq> 0 then
            (case iteration_finish b (load (closures m ! i) (coord m)) of
               (r, s', e) \<Rightarrow>
                 m\<lparr>coord := park s',
                   closures := (closures m)
                     [i := \<lparr>in_progress = isUpdateInProgress s',
                            bodies = bodies (closures m ! i) - 1\<rparr>]\<rparr>)
          else m
      | Pause now \<Rightarrow> m\<lparr>coord := park (fst (pauseMonitoring now (coord m)))\<rparr>
      | Resume now \<Rightarrow> m\<lparr>coord := park (fst (resumeMonitoring now (coord m)))\<rparr>
      | Stop fs tabs \<Rightarrow> m\<lparr>coord := park (fst (stopMonitoring fs tabs (coord m)))\<rparr>)"

definition run :: "event list \<Rightarrow> machine \<Rightarrow> machine" where
  "run evs m = foldl (\<lambda>m ev. step ev m) m evs"

text \<open>
  Events of the interval-based coordinator. \<open>Start_interval\<close> is a \<^verbatim>\<open>startMonitoring\<close>
  message: the call clears the old timer, declares its flag, arms a new timer and calls
  \<^verbatim>\<open>processOneIteration\<close> at once, all before its first \<^verbatim>\<open>await\<close>. \<open>Tick\<close> is the callback
  \<^verbatim>\<open>if (!isUpdateInProgress && !isPaused) await processOneIteration()\<close> of the armed timer,
  which belongs to the latest call. \<open>Finish_interval i\<close> ends a suspended body of call \<open>i\<close>.
\<close>

datatype event_interval =
  Start_interval | Tick | Finish_interval nat interval_env | Pause_interval string |
  Resume_interval string | Stop_interval string

definition begun :: "closure \<Rightarrow> bool \<times> coordinator \<Rightarrow> closure" where
  "begun c r =
     \<lparr>in_progress = isUpdateInProgress (snd r), bodies = bodies c + (if fst r then 1 else 0)\<rparr>"

definition step_interval :: "event_interval \<Rightarrow> machine \<Rightarrow> machine" where
  "step_interval ev m =
     (case ev of
        Start_interval \<Rightarrow>
          (let r = iteration_begin_interval (startMonitoring_init_interval (coord m))
           in m\<lparr>coord := park (snd r),
                 closures := closures m @ [begun \<lparr>in_progress = False, bodies = 0\<rparr> r]\<rparr>)
      | Tick \<Rightarrow>
          if monitoringInterval (coord m) \<and> closures m \<noteq> [] \<and>
             \<not> in_progress (last (closures m)) \<and> \<not> isPaused (coord m)
          then
            (let r = iteration_begin_interval (load (last (closures m)) (coord m))
             in m\<lparr>coord := park (snd r),
                   closures := butlast (closures m) @ [begun (last (closures m)) r]\<rparr>)
          else m
      | Finish_interval i env \<Rightarrow>
          if i < length (closures m) \<and> bodies (closures m ! i) \<noteq> 0 then
            (case iteration_finish_interval env (load (closures m ! i) (coord m)) of
               (s', e) \<Rightarrow>
                 m\<lparr>coord := park s',
                   closures := (closures m)
                     [i := \<lparr>in_progress = isUpdateInProgress s',
                            bodies = bodies (closures m ! i) - 1\<rparr>]\<rparr>)
          else m
      | Pause_interval now \<Rightarrow> m\<lparr>coord := park (fst (pauseMonitoring now (coord m)))\<rparr>
      | Resume_interval now \<Rightarrow> m\<lparr>coord := park (fst (resumeMonitoring now (coord m)))\<rparr>
      | Stop_interval now \<Rightarrow> m\<lparr>coord := park (fst (stopMonitoring_interval now (coord m)))\<rparr>)"

definition run_interval :: "event_interval list \<Rightarrow> machine \<Rightarrow> machine" where
  "run_interval evs m = foldl (\<lambda>m ev. step_interval ev m) m evs"

section \<open>Auxiliary notions for the statements\<close>

text \<open>
  An attempt is retried when it delivers a response for which the loop's exit test fails;
  any other attempt ends \<^verbatim>\<open>sendProcessMessage\<close> with \<open>attempt_result\<close>.
\<close>

definition retryable :: "bridge_attempt \<Rightarrow> bool" where
  "retryable a = (case attemptSend a of Inr (Some r) \<Rightarrow> bfcache_failure r | _ \<Rightarrow> False)"

definition attempt_result :: "bridge_attempt \<Rightarrow> send_error + response" where
  "attempt_result a =
     (case attemptSend a of Inl e \<Rightarrow> Inl e | Inr None \<Rightarrow> Inl TypeError | Inr (Some r) \<Rightarrow> Inr r)"

text \<open>The delays of \<open>m\<close> failed attempts that start from \<open>d\<close> and grow by the factor 1.5.\<close>

definition backoff :: "rat \<Rightarrow> nat \<Rightarrow> rat list" where
  "backoff d m = map (\<lambda>j. d * (3 / 2) ^ j) [0 ..< m]"

section \<open>Example states\<close>

text \<open>
  Concrete states for evaluating the operations: a coordinator with nothing running, and
  one in the middle of task \<^verbatim>\<open>t1\<close> after three iterations, with the session and the task
  state in the durable store.
\<close>

definition session_t1 :: session where
  "session_t1 =
     \<lparr>taskId = ''t1'', status = S_active, sessionIsPaused = Some False, sessionIsRunning = None\<rparr>"

definition taskState_t1 :: taskState where
  "taskState_t1 =
     \<lparr>ts_taskId = Some ''t1'', ts_status = Some T_running, ts_task = Some ''find the login button'',
      ts_isRunning = Some True, ts_iterations = Some 3, ts_isPaused = Some False,
      ts_processingStatus = Some P_idle, ts_lastUpdateTimestamp = None\<rparr>"

definition idle_coordinator :: coordinator where
  "idle_coordinator =
     \<lparr>monitoringInterval = False, currentIterations = 0, isPaused = False,
      lastUpdateResponse = None, activeSession = None, isUpdateInProgress = False,
      storage = Map.empty\<rparr>"

definition running_coordinator :: coordinator where
  "running_coordinator =
     \<lparr>monitoringInterval = True, currentIterations = 3, isPaused = False,
      lastUpdateResponse = None, activeSession = Some session_t1, isUpdateInProgress = False,
      storage = [K_activeSession \<mapsto> SessionV session_t1, K_taskState \<mapsto> TaskStateV taskState_t1]\<rparr>"

text \<open>A store whose only entry is a last server reply with \<^verbatim>\<open>is_done: true\<close>.\<close>

definition done_reply_store :: storage where
  "done_reply_store =
     [K_lastUpdateResponse \<mapsto>
        UpdateResponseV
          \<lparr>ur_timestamp = ''2025-01-01T00:00:00.000Z'', ur_task_id = ''t1'',
           ur_data = Some \<lparr>sd_result = Some \<lparr>sr_actions = None, sr_is_done = Some True\<rparr>\<rparr>\<rparr>]"

text \<open>
  A browser in which the page \<^verbatim>\<open>https://example.org/\<close> is the active tab and its agent
  answers the first dispatch with success and \<^verbatim>\<open>isDone\<close>.
\<close>

definition example_tab :: tab where
  "example_tab =
     \<lparr>tab_id = Some 7, tab_url = Some ''https://example.org/'', tab_status = Some Complete,
      tab_active = True\<rparr>"

definition done_browser :: browser where
  "done_browser =
     \<lparr>br_active = (\<lambda>i. QueryOk [example_tab]), br_all = QueryOk [example_tab],
      br_bridge = (\<lambda>i. \<lparr>ping_ok = True, inject_ok = True,
                          reply = Result (Some \<lparr>success = True, error = None, isDone = True\<rparr>)\<rparr>),
      br_stop_tabs = [example_tab], br_task_id = ''t1''\<rparr>"

text \<open>
  An iteration of the loop-based coordinator ends in \<^verbatim>\<open>stopMonitoring\<close> when a tab with a
  valid address is found and the dispatch throws, fails, or succeeds with \<^verbatim>\<open>isDone\<close>. An
  iteration of the interval-based coordinator delivers a success when the active tab is
  processable and the attempt yields a successful response.
\<close>

definition ends_in_stop :: "browser \<Rightarrow> bool" where
  "ends_in_stop b =
     (case getValidTab 5 1000 (br_active b) (br_all b) of
        (Some t, _, _) \<Rightarrow>
          isValidUrl_opt (tab_url t) \<and>
          (case sendProcessMessage 10 (br_bridge b) of
             (Inr r, _, _) \<Rightarrow> \<not> success r \<or> isDone r
           | (Inl _, _, _) \<Rightarrow> True)
      | (None, _, _) \<Rightarrow> False)"

definition delivers_success :: "interval_env \<Rightarrow> bool" where
  "delivers_success env =
     (case ie_tabs env of
        QueryThrew \<Rightarrow> False
      | QueryOk tabs \<Rightarrow>
          processable tabs \<and>
          (case attemptSend (ie_attempt env) of Inr (Some r) \<Rightarrow> success r | _ \<Rightarrow> False))"

text \<open>
  Browsers for the examples: one whose page agent answers the third attempt, after two
  back/forward-cache failures, with success and more work to do; and, for the
  interval-based coordinator, one whose page agent cannot be reached.
\<close>

definition retrying_browser :: browser where
  "retrying_browser =
     \<lparr>br_active = (\<lambda>i. QueryOk [example_tab]), br_all = QueryOk [example_tab],
      br_bridge = (\<lambda>i. if i < 2
                        then \<lparr>ping_ok = True, inject_ok = True,
                              reply = LastError ''in back/forward cache''\<rparr>
                        else \<lparr>ping_ok = True, inject_ok = True,
                              reply = Result (Some \<lparr>success = True, error = None,
                                                    isDone = False\<rparr>)\<rparr>),
      br_stop_tabs = [example_tab], br_task_id = ''t1''\<rparr>"

definition unreachable_env :: interval_env where
  "unreachable_env =
     \<lparr>ie_tabs = QueryOk [example_tab],
      ie_attempt = \<lparr>ping_ok = True, inject_ok = True,
                    reply = LastError ''Could not establish connection''\<rparr>,
      ie_now = ''2025-01-01T00:00:00.000Z'', ie_task_id = ''t1''\<rparr>"

text \<open>
  What the guard gives within one call: a closure has at most one body in flight, and
  its flag is up exactly while it has one. \<open>running_machine\<close> is the running coordinator
  before any monitoring call.
\<close>

definition guarded :: "closure \<Rightarrow> bool" where
  "guarded c = (bodies c \<le> 1 \<and> (in_progress c = (bodies c = 1)))"

definition running_machine :: machine where
  "running_machine = \<lparr>coord = running_coordinator, closures = []\<rparr>"

section \<open>Properties of the URL predicate\<close>

text \<open>
  C10. \<^verbatim>\<open>isValidUrl\<close> accepts exactly the strings that start with none of six prefixes
  (\<^verbatim>\<open>chrome://\<close>, \<^verbatim>\<open>chrome-extension://\<close>, \<^verbatim>\<open>chrome-search://\<close>, \<^verbatim>\<open>about:\<close>, \<^verbatim>\<open>edge://\<close>,
  \<^verbatim>\<open>brave://\<close>); the six are pairwise different, and the empty string and text that is no
  URL at all are accepted.
\<close>

theorem isValidUrl_six_prefixes:
  "isValidUrl url =
     (\<not> (\<exists>p \<in> set [''chrome://'', ''chrome-extension://'', ''chrome-search://'',
                      ''about:'', ''edge://'', ''brave://'']. prefix p url))
   \<and> distinct [''chrome://'', ''chrome-extension://'', ''chrome-search://'',
                ''about:'', ''edge://'', ''brave://'']
   \<and> length [''chrome://'', ''chrome-extension://'', ''chrome-search://'',
              ''about:'', ''edge://'', ''brave://''] = 6
   \<and> isValidUrl ''''
   \<and> isValidUrl ''not a url at all''"
  by (simp add: isValidUrl_def startsWith_def)

theorem isValidUrl_six_prefixes_witness:
  "isValidUrl ''https://example.org/a'' \<and> \<not> isValidUrl ''about:blank''
   \<and> \<not> isValidUrl ''chrome-extension://abc/popup.html''"
  using isValidUrl_six_prefixes [of "''https://example.org/a''"]
        isValidUrl_six_prefixes [of "''about:blank''"]
        isValidUrl_six_prefixes [of "''chrome-extension://abc/popup.html''"]
  by simp

section \<open>Properties of the Content Bridge\<close>

lemma str_includes_iff: "str_includes s pat = (\<exists>u v. s = u @ pat @ v)"
proof (induction s)
  case Nil
  then show ?case by auto
next
  case (Cons c s)
  show ?case
  proof
    assume "str_includes (c # s) pat"
    then consider "prefix pat (c # s)" | "str_includes s pat" by auto
    then show "\<exists>u v. c # s = u @ pat @ v"
    proof cases
      case 1
      then obtain v where "c # s = pat @ v" by (auto simp: prefix_def)
      then have "c # s = [] @ pat @ v" by simp
      then show ?thesis by blast
    next
      case 2
      with Cons.IH obtain u v where "s = u @ pat @ v" by auto
      then have "c # s = (c # u) @ pat @ v" by simp
      then show ?thesis by blast
    qed
  next
    assume "\<exists>u v. c # s = u @ pat @ v"
    then obtain u v where uv: "c # s = u @ pat @ v" by blast
    show "str_includes (c # s) pat"
    proof (cases u)
      case Nil
      with uv have "prefix pat (c # s)" by (simp add: prefix_def)
      then show ?thesis by simp
    next
      case (Cons d u')
      with uv have "s = u' @ pat @ v" by simp
      with Cons.IH have "str_includes s pat" by blast
      then show ?thesis by simp
    qed
  qed
qed

lemma loop_retry_step:
  assumes "c < n" "attemptSend (bridge c) = Inr (Some r)" "bfcache_failure r"
  shows "sendProcessMessage_loop bridge n c =
     (case sendProcessMessage_loop bridge n (Suc c) of
        (res, ds, m) \<Rightarrow> (res, (if Suc c < n then [1000 * Suc c] else []) @ ds, m))"
  using assms by (subst sendProcessMessage_loop.simps) simp

lemma loop_final_step:
  assumes "c < n" "\<not> retryable (bridge c)"
  shows "sendProcessMessage_loop bridge n c = (attempt_result (bridge c), [], Suc c)"
  using assms
  by (subst sendProcessMessage_loop.simps)
     (simp add: retryable_def attempt_result_def split: sum.splits option.splits)

lemma retryableD:
  "retryable a \<Longrightarrow> \<exists>r. attemptSend a = Inr (Some r) \<and> bfcache_failure r"
  by (auto simp: retryable_def split: sum.splits option.splits)

lemma loop_exhausted:
  "(\<forall>i. c \<le> i \<and> i < n \<longrightarrow> retryable (bridge i)) \<Longrightarrow> c \<le> n \<Longrightarrow>
   sendProcessMessage_loop bridge n c =
     (Inl MaxRetriesError, map (\<lambda>j. 1000 * j) [Suc c ..< n], n)"
proof (induction "n - c" arbitrary: c)
  case 0
  then have "c = n" by simp
  then show ?case by (subst sendProcessMessage_loop.simps) simp
next
  case (Suc d)
  then have lt: "c < n" by simp
  with Suc.prems obtain r where a: "attemptSend (bridge c) = Inr (Some r)" and bf: "bfcache_failure r"
    using retryableD[of "bridge c"] by auto
  have d: "d = n - Suc c" using Suc.hyps(2) by simp
  have ih: "sendProcessMessage_loop bridge n (Suc c) =
        (Inl MaxRetriesError, map (\<lambda>j. 1000 * j) [Suc (Suc c) ..< n], n)"
    using Suc.hyps(1)[OF d] Suc.prems lt by simp
  have step: "sendProcessMessage_loop bridge n c =
        (Inl MaxRetriesError,
         (if Suc c < n then [1000 * Suc c] else []) @ map (\<lambda>j. 1000 * j) [Suc (Suc c) ..< n], n)"
    unfolding loop_retry_step[of c n bridge r, OF lt a bf] ih by simp
  show ?case
  proof (cases "Suc c < n")
    case True
    then have "[Suc c ..< n] = Suc c # [Suc (Suc c) ..< n]" by (rule upt_conv_Cons)
    with True step show ?thesis by simp
  next
    case False
    with step show ?thesis by simp
  qed
qed

lemma loop_first_final:
  "c \<le> k \<Longrightarrow> k < n \<Longrightarrow> (\<forall>i. c \<le> i \<and> i < k \<longrightarrow> retryable (bridge i)) \<Longrightarrow>
   \<not> retryable (bridge k) \<Longrightarrow>
   sendProcessMessage_loop bridge n c =
     (attempt_result (bridge k), map (\<lambda>j. 1000 * j) [Suc c ..< Suc k], Suc k)"
proof (induction "k - c" arbitrary: c)
  case 0
  then have "c = k" by simp
  with 0 show ?case by (simp add: loop_final_step)
next
  case (Suc d)
  then have ck: "c < k" and lt: "c < n" by simp_all
  with Suc.prems obtain r where a: "attemptSend (bridge c) = Inr (Some r)" and bf: "bfcache_failure r"
    using retryableD[of "bridge c"] by auto
  have d: "d = k - Suc c" using Suc.hyps(2) by simp
  have ih: "sendProcessMessage_loop bridge n (Suc c) =
        (attempt_result (bridge k), map (\<lambda>j. 1000 * j) [Suc (Suc c) ..< Suc k], Suc k)"
    using Suc.hyps(1)[OF d] Suc.prems ck by simp
  have lt2: "Suc c < n" using ck Suc.prems by simp
  have step: "sendProcessMessage_loop bridge n c =
        (attempt_result (bridge k),
         1000 * Suc c # map (\<lambda>j. 1000 * j) [Suc (Suc c) ..< Suc k], Suc k)"
    unfolding loop_retry_step[of c n bridge r, OF lt a bf] ih using lt2 by simp
  have "Suc c < Suc k" using ck by simp
  then have "[Suc c ..< Suc k] = Suc c # [Suc (Suc c) ..< Suc k]" by (rule upt_conv_Cons)
  then have "map (\<lambda>j. 1000 * j) [Suc c ..< Suc k] =
      1000 * Suc c # map (\<lambda>j. 1000 * j) [Suc (Suc c) ..< Suc k]"
    by (simp only: list.map)
  with step show ?case by (simp only:)
qed

lemma retryable_iff:
  "retryable a \<longleftrightarrow>
     (\<exists>r e u v. attemptSend a = Inr (Some r) \<and> \<not> success r \<and> error r = Some e \<and>
                e = u @ ''back/forward cache'' @ v)"
proof
  assume "retryable a"
  then obtain r where a: "attemptSend a = Inr (Some r)" and bf: "bfcache_failure r"
    using retryableD by blast
  from bf obtain e where e: "error r = Some e" and inc: "str_includes e ''back/forward cache''"
    and ns: "\<not> success r"
    by (cases "error r") (simp_all add: bfcache_failure_def)
  from inc obtain u v where "e = u @ ''back/forward cache'' @ v"
    unfolding str_includes_iff by blast
  with a e ns show "\<exists>r e u v. attemptSend a = Inr (Some r) \<and> \<not> success r \<and> error r = Some e \<and>
                e = u @ ''back/forward cache'' @ v" by blast
next
  assume "\<exists>r e u v. attemptSend a = Inr (Some r) \<and> \<not> success r \<and> error r = Some e \<and>
                e = u @ ''back/forward cache'' @ v"
  then obtain r e u v where a: "attemptSend a = Inr (Some r)" and ns: "\<not> success r"
    and e: "error r = Some e" and uv: "e = u @ ''back/forward cache'' @ v" by blast
  from uv have "str_includes e ''back/forward cache''" unfolding str_includes_iff by blast
  with ns e have "bfcache_failure r" by (simp add: bfcache_failure_def)
  with a show "retryable a" by (simp add: retryable_def)
qed

lemma delays_ten:
  "map (\<lambda>j. 1000 * j) [Suc 0 ..< 10] = [1000, 2000, 3000, 4000, 5000, 6000, 7000, 8000, 9000 :: nat]"
  by code_simp


text \<open>
  C6. \<^verbatim>\<open>sendProcessMessage\<close> with its default budget of 10: when the first attempt that
  is not a back/forward-cache failure is attempt \<open>k\<close> (counted from 0, \<open>k < 10\<close>), its
  outcome is returned at once, after \<open>k + 1\<close> attempts and the delays 1000, 2000, ...,
  \<open>1000 * k\<close>; when all ten attempts are back/forward-cache failures it throws after
  exactly ten attempts and the nine delays 1000, ..., 9000. An attempt is retried exactly
  when it delivers an unsuccessful response whose error text contains
  \<^verbatim>\<open>back/forward cache\<close>.
\<close>

theorem sendProcessMessage_bounded_retry:
  "(k < 10 \<and> (\<forall>i<k. retryable (bridge i)) \<and> \<not> retryable (bridge k) \<longrightarrow>
      sendProcessMessage 10 bridge =
        (attempt_result (bridge k), map (\<lambda>j. 1000 * j) [1 ..< Suc k], Suc k))
   \<and> ((\<forall>i<10. retryable (bridge i)) \<longrightarrow>
      sendProcessMessage 10 bridge =
        (Inl MaxRetriesError, [1000, 2000, 3000, 4000, 5000, 6000, 7000, 8000, 9000], 10))
   \<and> (retryable a \<longleftrightarrow>
        (\<exists>r e u v. attemptSend a = Inr (Some r) \<and> \<not> success r \<and> error r = Some e \<and>
                   e = u @ ''back/forward cache'' @ v))"
proof (intro conjI impI)
  assume h: "k < 10 \<and> (\<forall>i<k. retryable (bridge i)) \<and> \<not> retryable (bridge k)"
  then have "sendProcessMessage_loop bridge 10 0 =
     (attempt_result (bridge k), map (\<lambda>j. 1000 * j) [Suc 0 ..< Suc k], Suc k)"
    by (intro loop_first_final) simp_all
  then show "sendProcessMessage 10 bridge =
        (attempt_result (bridge k), map (\<lambda>j. 1000 * j) [1 ..< Suc k], Suc k)"
    by (simp add: sendProcessMessage_def)
next
  assume h: "\<forall>i<10. retryable (bridge i)"
  then have "sendProcessMessage_loop bridge 10 0 =
     (Inl MaxRetriesError, map (\<lambda>j. 1000 * j) [Suc 0 ..< 10], 10)"
    by (intro loop_exhausted) simp_all
  then show "sendProcessMessage 10 bridge =
        (Inl MaxRetriesError, [1000, 2000, 3000, 4000, 5000, 6000, 7000, 8000, 9000], 10)"
    unfolding delays_ten by (simp only: sendProcessMessage_def)
next
  show "retryable a \<longleftrightarrow>
        (\<exists>r e u v. attemptSend a = Inr (Some r) \<and> \<not> success r \<and> error r = Some e \<and>
                   e = u @ ''back/forward cache'' @ v)"
    by (rule retryable_iff)
qed

theorem sendProcessMessage_bounded_retry_witness:
  "sendProcessMessage 10
      (\<lambda>i. \<lparr>ping_ok = True, inject_ok = True, reply = LastError ''in back/forward cache''\<rparr>) =
     (Inl MaxRetriesError, [1000, 2000, 3000, 4000, 5000, 6000, 7000, 8000, 9000], 10)
   \<and> sendProcessMessage 10
      (\<lambda>i. if i < 2 then \<lparr>ping_ok = True, inject_ok = True,
                           reply = LastError ''in back/forward cache''\<rparr>
            else \<lparr>ping_ok = False, inject_ok = True,
                  reply = Result (Some \<lparr>success = True, error = None, isDone = False\<rparr>)\<rparr>) =
     (Inr \<lparr>success = True, error = None, isDone = False\<rparr>, [1000, 2000], 3)"
proof -
  have bf: "retryable \<lparr>ping_ok = True, inject_ok = True, reply = LastError ''in back/forward cache''\<rparr>"
    by (simp add: retryable_def attemptSend_def bfcache_failure_def)
  have ok: "\<not> retryable \<lparr>ping_ok = False, inject_ok = True,
                  reply = Result (Some \<lparr>success = True, error = None, isDone = False\<rparr>)\<rparr>"
    by (simp add: retryable_def attemptSend_def bfcache_failure_def)
  have u: "map (\<lambda>j. 1000 * j) [1 ..< Suc 2] = [1000, 2000 :: nat]" by code_simp
  note exhausted = sendProcessMessage_bounded_retry
      [of 0 "\<lambda>i. \<lparr>ping_ok = True, inject_ok = True, reply = LastError ''in back/forward cache''\<rparr>",
       THEN conjunct2, THEN conjunct1]
  note third = sendProcessMessage_bounded_retry
      [of 2 "\<lambda>i. if i < 2 then \<lparr>ping_ok = True, inject_ok = True,
                           reply = LastError ''in back/forward cache''\<rparr>
            else \<lparr>ping_ok = False, inject_ok = True,
                  reply = Result (Some \<lparr>success = True, error = None, isDone = False\<rparr>)\<rparr>",
       THEN conjunct1]
  have a: "sendProcessMessage 10
      (\<lambda>i. \<lparr>ping_ok = True, inject_ok = True, reply = LastError ''in back/forward cache''\<rparr>) =
     (Inl MaxRetriesError, [1000, 2000, 3000, 4000, 5000, 6000, 7000, 8000, 9000], 10)"
    using exhausted bf by simp
  have b: "sendProcessMessage 10
      (\<lambda>i. if i < 2 then \<lparr>ping_ok = True, inject_ok = True,
                           reply = LastError ''in back/forward cache''\<rparr>
            else \<lparr>ping_ok = False, inject_ok = True,
                  reply = Result (Some \<lparr>success = True, error = None, isDone = False\<rparr>)\<rparr>) =
     (Inr \<lparr>success = True, error = None, isDone = False\<rparr>, [1000, 2000], 3)"
    using third bf ok unfolding u by (simp add: attempt_result_def attemptSend_def)
  from a b show ?thesis by simp
qed

section \<open>Properties of the Tab Locator\<close>

lemma attempts_hit:
  assumes "a \<le> n" "usable_tab (q a) = Some t"
  shows "getValidTab_attempts q n d a = (Some t, [], a)"
  using assms by (subst getValidTab_attempts.simps) simp

lemma attempts_miss:
  assumes "a < n" "usable_tab (q a) = None"
  shows "getValidTab_attempts q n d a =
     (case getValidTab_attempts q n (d * (3 / 2)) (Suc a) of (r, ds, m) \<Rightarrow> (r, d # ds, m))"
  using assms by (subst getValidTab_attempts.simps) simp

lemma attempts_last_miss:
  assumes "usable_tab (q n) = None"
  shows "getValidTab_attempts q n d n = (None, [], n)"
  using assms
  by (subst getValidTab_attempts.simps, subst getValidTab_attempts.simps) simp

lemma backoff_Suc: "backoff d (Suc m) = d # backoff (d * (3 / 2)) m"
  unfolding backoff_def
  by (simp only: map_upt_Suc) (simp add: mult.assoc)

lemma attempts_first_usable:
  "a \<le> k \<Longrightarrow> k \<le> n \<Longrightarrow> (\<forall>i. a \<le> i \<and> i < k \<longrightarrow> usable_tab (q i) = None) \<Longrightarrow>
   usable_tab (q k) = Some t \<Longrightarrow>
   getValidTab_attempts q n d a = (Some t, backoff d (k - a), k)"
proof (induction "k - a" arbitrary: a d)
  case 0
  then have "a = k" by simp
  with 0 show ?case by (simp add: attempts_hit backoff_def)
next
  case (Suc m)
  then have ak: "a < k" and an: "a < n" by simp_all
  with Suc.prems have miss: "usable_tab (q a) = None" by simp
  have m: "m = k - Suc a" using Suc.hyps(2) by simp
  have ih: "getValidTab_attempts q n (d * (3 / 2)) (Suc a) =
      (Some t, backoff (d * (3 / 2)) (k - Suc a), k)"
    using Suc.hyps(1)[OF m] Suc.prems ak by simp
  have "k - a = Suc (k - Suc a)" using ak by simp
  then have "backoff d (k - a) = d # backoff (d * (3 / 2)) (k - Suc a)"
    by (simp only: backoff_Suc)
  then show ?case
    unfolding attempts_miss[of a n q d, OF an miss] ih by simp
qed

lemma attempts_none_usable:
  "a \<le> n \<Longrightarrow> (\<forall>i. a \<le> i \<and> i \<le> n \<longrightarrow> usable_tab (q i) = None) \<Longrightarrow>
   getValidTab_attempts q n d a = (None, backoff d (n - a), n)"
proof (induction "n - a" arbitrary: a d)
  case 0
  then have "a = n" by simp
  with 0 show ?case by (simp add: attempts_last_miss backoff_def)
next
  case (Suc m)
  then have an: "a < n" by simp
  with Suc.prems have miss: "usable_tab (q a) = None" by simp
  have m: "m = n - Suc a" using Suc.hyps(2) by simp
  have ih: "getValidTab_attempts q n (d * (3 / 2)) (Suc a) =
      (None, backoff (d * (3 / 2)) (n - Suc a), n)"
    using Suc.hyps(1)[OF m] Suc.prems an by simp
  have "n - a = Suc (n - Suc a)" using an by simp
  then have "backoff d (n - a) = d # backoff (d * (3 / 2)) (n - Suc a)"
    by (simp only: backoff_Suc)
  then show ?case
    unfolding attempts_miss[of a n q d, OF an miss] ih by simp
qed

lemma backoff_default: "backoff 1000 4 = [1000, 1500, 2250, 3375]"
  by (simp add: backoff_def upt_conv_Cons power_numeral_reduce eval_nat_numeral)

lemma first_of_filter: "first_of (filter P xs) = find P xs"
  by (induction xs) (auto simp: first_of_def)

lemma backoff_take: "m \<le> 4 \<Longrightarrow> backoff 1000 m = take m [1000, 1500, 2250, 3375]"
proof -
  assume "m \<le> 4"
  then have "backoff 1000 m = take m (backoff 1000 4)"
    by (simp add: backoff_def take_map min_def)
  then show ?thesis by (simp only: backoff_default)
qed

lemma getValidTab_found:
  assumes "1 \<le> k" "k \<le> 5" "\<forall>i. 1 \<le> i \<and> i < k \<longrightarrow> usable_tab (q i) = None"
    "usable_tab (q k) = Some t"
  shows "getValidTab 5 1000 q qall = (Some t, take (k - 1) [1000, 1500, 2250, 3375], k)"
proof -
  have "getValidTab_attempts q 5 1000 1 = (Some t, backoff 1000 (k - 1), k)"
    using assms by (intro attempts_first_usable) simp_all
  moreover have "backoff 1000 (k - 1) = take (k - 1) [1000, 1500, 2250, 3375]"
    using assms(2) by (intro backoff_take) simp
  ultimately show ?thesis by (simp add: getValidTab_def)
qed

lemma getValidTab_exhausted:
  assumes "\<forall>i. 1 \<le> i \<and> i \<le> 5 \<longrightarrow> usable_tab (q i) = None"
  shows "getValidTab 5 1000 q qall = (fallback_tab qall, [1000, 1500, 2250, 3375], 5)"
proof -
  have "getValidTab_attempts q 5 1000 1 = (None, backoff 1000 (5 - 1), 5)"
    using assms by (intro attempts_none_usable) simp_all
  then show ?thesis by (simp add: getValidTab_def backoff_default)
qed

lemma getValidTab_none_only_exhausted:
  assumes "fst (getValidTab 5 1000 q qall) = None"
  shows "(\<forall>i. 1 \<le> i \<and> i \<le> 5 \<longrightarrow> usable_tab (q i) = None) \<and> fallback_tab qall = None"
proof -
  have all: "\<forall>i. 1 \<le> i \<and> i \<le> 5 \<longrightarrow> usable_tab (q i) = None"
  proof (rule ccontr)
    assume "\<not> ?thesis"
    then obtain i where i: "1 \<le> i \<and> i \<le> 5 \<and> usable_tab (q i) \<noteq> None" by blast
    define k where "k = (LEAST i. 1 \<le> i \<and> i \<le> 5 \<and> usable_tab (q i) \<noteq> None)"
    have k: "1 \<le> k \<and> k \<le> 5 \<and> usable_tab (q k) \<noteq> None"
      unfolding k_def using i by (rule LeastI)
    have least: "\<And>j. j < k \<Longrightarrow> \<not> (1 \<le> j \<and> j \<le> 5 \<and> usable_tab (q j) \<noteq> None)"
      unfolding k_def by (rule not_less_Least)
    from k obtain t where t: "usable_tab (q k) = Some t" by auto
    have "\<forall>j. 1 \<le> j \<and> j < k \<longrightarrow> usable_tab (q j) = None"
      using least k by force
    with k t have "getValidTab 5 1000 q qall = (Some t, take (k - 1) [1000, 1500, 2250, 3375], k)"
      by (intro getValidTab_found) simp_all
    with assms show False by simp
  qed
  with assms show ?thesis by (simp add: getValidTab_exhausted)
qed

lemma fallback_tab_find:
  "fallback_tab (QueryOk allTabs) =
     (case find tab_active allTabs of
        Some a \<Rightarrow> if truthy_id a \<and> truthy_url a then Some a else find last_resort allTabs
      | None \<Rightarrow> find last_resort allTabs)"
  by (simp add: fallback_tab_def first_of_filter split: option.splits)

lemma last_resort_iff:
  "last_resort t \<longleftrightarrow>
     (\<exists>n u. tab_id t = Some n \<and> n \<noteq> 0 \<and> tab_url t = Some u \<and> u \<noteq> [] \<and>
            \<not> prefix ''chrome://'' u)"
  by (auto simp: last_resort_def truthy_id_def startsWith_def split: option.splits)


text \<open>
  C7, as the code has it. \<^verbatim>\<open>getValidTab\<close> with its defaults queries the active tab of the
  current window up to 5 times; the first usable answer (attempt \<open>k\<close>) is returned after
  the delays 1000, 1500, 2250, 3375 ms cut to \<open>k - 1\<close>. After 5 unusable answers it waited
  all four delays and falls back on the list of all tabs: the first tab flagged active,
  if it has an id and an address; else the first tab with an id and an address that
  does not start with \<^verbatim>\<open>chrome://\<close> (no other scheme is excluded at this tier); a thrown
  all-tabs query gives nothing. It returns no tab only when all five attempts and the
  fallback have failed.
\<close>

theorem getValidTab_three_tiers:
  "(1 \<le> k \<and> k \<le> 5 \<and> (\<forall>i. 1 \<le> i \<and> i < k \<longrightarrow> usable_tab (q i) = None) \<and>
    usable_tab (q k) = Some t \<longrightarrow>
      getValidTab 5 1000 q qall = (Some t, take (k - 1) [1000, 1500, 2250, 3375], k))
   \<and> ((\<forall>i. 1 \<le> i \<and> i \<le> 5 \<longrightarrow> usable_tab (q i) = None) \<longrightarrow>
      getValidTab 5 1000 q qall = (fallback_tab qall, [1000, 1500, 2250, 3375], 5))
   \<and> fallback_tab (QueryOk allTabs) =
      (case find tab_active allTabs of
         Some a \<Rightarrow> if truthy_id a \<and> truthy_url a then Some a else find last_resort allTabs
       | None \<Rightarrow> find last_resort allTabs)
   \<and> fallback_tab QueryThrew = None
   \<and> (last_resort c \<longleftrightarrow>
        (\<exists>n u. tab_id c = Some n \<and> n \<noteq> 0 \<and> tab_url c = Some u \<and> u \<noteq> [] \<and>
               \<not> prefix ''chrome://'' u))
   \<and> (fst (getValidTab 5 1000 q qall) = None \<longrightarrow>
        (\<forall>i. 1 \<le> i \<and> i \<le> 5 \<longrightarrow> usable_tab (q i) = None) \<and> fallback_tab qall = None)"
proof (intro conjI impI)
  assume "1 \<le> k \<and> k \<le> 5 \<and> (\<forall>i. 1 \<le> i \<and> i < k \<longrightarrow> usable_tab (q i) = None) \<and>
    usable_tab (q k) = Some t"
  then show "getValidTab 5 1000 q qall = (Some t, take (k - 1) [1000, 1500, 2250, 3375], k)"
    by (intro getValidTab_found) simp_all
next
  assume "\<forall>i. 1 \<le> i \<and> i \<le> 5 \<longrightarrow> usable_tab (q i) = None"
  then show "getValidTab 5 1000 q qall = (fallback_tab qall, [1000, 1500, 2250, 3375], 5)"
    by (rule getValidTab_exhausted)
next
  show "fallback_tab (QueryOk allTabs) =
      (case find tab_active allTabs of
         Some a \<Rightarrow> if truthy_id a \<and> truthy_url a then Some a else find last_resort allTabs
       | None \<Rightarrow> find last_resort allTabs)"
    by (rule fallback_tab_find)
next
  show "fallback_tab QueryThrew = None" by (simp add: fallback_tab_def)
next
  show "last_resort c \<longleftrightarrow>
        (\<exists>n u. tab_id c = Some n \<and> n \<noteq> 0 \<and> tab_url c = Some u \<and> u \<noteq> [] \<and>
               \<not> prefix ''chrome://'' u)"
    by (rule last_resort_iff)
next
  assume h: "fst (getValidTab 5 1000 q qall) = None"
  then show "\<forall>i. 1 \<le> i \<and> i \<le> 5 \<longrightarrow> usable_tab (q i) = None"
    using getValidTab_none_only_exhausted by blast
  from h show "fallback_tab qall = None"
    using getValidTab_none_only_exhausted by blast
qed

theorem getValidTab_three_tiers_witness:
  "getValidTab 5 1000
     (\<lambda>i. if i < 3 then QueryOk [] else
        QueryOk [\<lparr>tab_id = Some 7, tab_url = Some ''https://example.org/'',
                  tab_status = Some Complete, tab_active = True\<rparr>])
     QueryThrew =
   (Some \<lparr>tab_id = Some 7, tab_url = Some ''https://example.org/'',
          tab_status = Some Complete, tab_active = True\<rparr>, [1000, 1500], 3)
   \<and> getValidTab 5 1000 (\<lambda>i. QueryThrew)
       (QueryOk [\<lparr>tab_id = Some 7, tab_url = Some ''https://example.org/'',
                  tab_status = Some Complete, tab_active = False\<rparr>]) =
   (Some \<lparr>tab_id = Some 7, tab_url = Some ''https://example.org/'',
          tab_status = Some Complete, tab_active = False\<rparr>, [1000, 1500, 2250, 3375], 5)
   \<and> fst (getValidTab 5 1000 (\<lambda>i. QueryThrew) (QueryOk [])) = None
   \<and> fallback_tab (QueryOk []) = None"
proof -
  let ?p = "\<lparr>tab_id = Some 7, tab_url = Some ''https://example.org/'',
             tab_status = Some Complete, tab_active = True\<rparr>"
  let ?n = "\<lparr>tab_id = Some 7, tab_url = Some ''https://example.org/'',
             tab_status = Some Complete, tab_active = False\<rparr>"
  let ?q = "\<lambda>i::nat. if i < 3 then QueryOk [] else QueryOk [?p]"
  note found = getValidTab_three_tiers[of 3 ?q ?p QueryThrew, THEN conjunct1]
  note exhausted = getValidTab_three_tiers
      [of 1 "\<lambda>i. QueryThrew" ?p "QueryOk [?n]", THEN conjunct2, THEN conjunct1]
  note exhausted' = getValidTab_three_tiers
      [of 1 "\<lambda>i. QueryThrew" ?p "QueryOk []", THEN conjunct2, THEN conjunct1]
  have a: "getValidTab 5 1000 ?q QueryThrew = (Some ?p, [1000, 1500], 3)"
    using found by (simp add: usable_tab_def truthy_id_def truthy_url_def)
  have b: "getValidTab 5 1000 (\<lambda>i. QueryThrew) (QueryOk [?n]) =
      (Some ?n, [1000, 1500, 2250, 3375], 5)"
    using exhausted
    by (simp add: usable_tab_def fallback_tab_def first_of_def last_resort_def truthy_id_def
          truthy_url_def startsWith_def)
  have c: "fst (getValidTab 5 1000 (\<lambda>i. QueryThrew) (QueryOk [])) = None"
    using exhausted' by (simp add: usable_tab_def fallback_tab_def first_of_def)
  note only = getValidTab_three_tiers
      [of 1 "\<lambda>i. QueryThrew" ?p "QueryOk []", THEN conjunct2, THEN conjunct2, THEN conjunct2,
       THEN conjunct2, THEN conjunct2]
  have d: "fallback_tab (QueryOk []) = None"
    using only c by simp
  from a b c d show ?thesis by simp
qed


text \<open>
  The third tier hands out an extension page, which \<^verbatim>\<open>isValidUrl\<close> rejects as an internal
  browser page: the claim's "not an internal browser page" does not hold of it.
\<close>

theorem getValidTab_last_resort_counterexample:
  "getValidTab 5 1000 (\<lambda>i. QueryThrew)
     (QueryOk [\<lparr>tab_id = Some 7, tab_url = Some ''chrome-extension://abc/popup.html'',
                tab_status = Some Complete, tab_active = False\<rparr>]) =
   (Some \<lparr>tab_id = Some 7, tab_url = Some ''chrome-extension://abc/popup.html'',
          tab_status = Some Complete, tab_active = False\<rparr>, [1000, 1500, 2250, 3375], 5)
   \<and> \<not> isValidUrl ''chrome-extension://abc/popup.html''"
proof -
  have "\<forall>i. 1 \<le> i \<and> i \<le> 5 \<longrightarrow> usable_tab ((\<lambda>i::nat. QueryThrew) i) = None"
    by (simp add: usable_tab_def)
  then have "getValidTab 5 1000 (\<lambda>i. QueryThrew)
     (QueryOk [\<lparr>tab_id = Some 7, tab_url = Some ''chrome-extension://abc/popup.html'',
                tab_status = Some Complete, tab_active = False\<rparr>]) =
     (fallback_tab (QueryOk [\<lparr>tab_id = Some 7, tab_url = Some ''chrome-extension://abc/popup.html'',
                tab_status = Some Complete, tab_active = False\<rparr>]), [1000, 1500, 2250, 3375], 5)"
    by (rule getValidTab_exhausted)
  then show ?thesis
    by (simp add: fallback_tab_def first_of_def last_resort_def truthy_id_def
          truthy_url_def startsWith_def isValidUrl_def)
qed

section \<open>Properties of the completion check\<close>

lemma sessionDone_iff:
  "sessionDone st = (\<exists>a. st K_activeSession = Some (SessionV a) \<and> status a = S_completed)"
  by (auto simp: sessionDone_def stored_session_def split: option.splits stored.splits)

lemma lastUpdateDone_iff:
  "lastUpdateDone st =
     (\<exists>r d res. st K_lastUpdateResponse = Some (UpdateResponseV r) \<and> ur_data r = Some d \<and>
                sd_result d = Some res \<and> sr_is_done res = Some True)"
  by (auto simp: lastUpdateDone_def stored_lastUpdateResponse_def
           split: option.splits stored.splits)

lemma processingDone_iff:
  "processingDone st =
     (\<exists>t. st K_taskState = Some (TaskStateV t) \<and> ts_processingStatus t = Some P_completed)"
  by (auto simp: processingDone_def stored_taskState_def split: option.splits stored.splits)

lemma interval_handler_below: "check_processing_status_interval st \<Longrightarrow> check_processing_status st"
  by (simp add: check_processing_status_interval_def check_processing_status_def sessionDone_def)


text \<open>
  C3, as the code has it. The \<^verbatim>\<open>check_processing_status\<close> handler of the loop-based
  coordinator answers done exactly when the stored session has status \<^verbatim>\<open>completed\<close>, or
  the stored last server reply carries \<^verbatim>\<open>is_done\<close> equal to \<^verbatim>\<open>true\<close>, or the stored task
  state has processing status \<^verbatim>\<open>completed\<close>. \<^verbatim>\<open>checkIfProcessingDone\<close> gives the same
  answer on the same store, whichever handler backs it and also without a reply. The
  handler of the interval-based coordinator answers done exactly when the stored session
  has status \<^verbatim>\<open>completed\<close>.
\<close>

theorem completion_check_disjunction:
  "check_processing_status st =
     ((\<exists>a. st K_activeSession = Some (SessionV a) \<and> status a = S_completed) \<or>
      (\<exists>r d res. st K_lastUpdateResponse = Some (UpdateResponseV r) \<and> ur_data r = Some d \<and>
                 sd_result d = Some res \<and> sr_is_done res = Some True) \<or>
      (\<exists>t. st K_taskState = Some (TaskStateV t) \<and> ts_processingStatus t = Some P_completed))
   \<and> checkIfProcessingDone st (Some (check_processing_status st)) = check_processing_status st
   \<and> checkIfProcessingDone st None = check_processing_status st
   \<and> checkIfProcessingDone st (Some (check_processing_status_interval st)) =
       check_processing_status st
   \<and> check_processing_status_interval st =
       (\<exists>a. st K_activeSession = Some (SessionV a) \<and> status a = S_completed)"
proof (intro conjI)
  show "check_processing_status st =
     ((\<exists>a. st K_activeSession = Some (SessionV a) \<and> status a = S_completed) \<or>
      (\<exists>r d res. st K_lastUpdateResponse = Some (UpdateResponseV r) \<and> ur_data r = Some d \<and>
                 sd_result d = Some res \<and> sr_is_done res = Some True) \<or>
      (\<exists>t. st K_taskState = Some (TaskStateV t) \<and> ts_processingStatus t = Some P_completed))"
    unfolding check_processing_status_def sessionDone_iff lastUpdateDone_iff processingDone_iff
    by (rule refl)
  show "checkIfProcessingDone st (Some (check_processing_status st)) = check_processing_status st"
    by (simp add: checkIfProcessingDone_def check_processing_status_def)
  show "checkIfProcessingDone st None = check_processing_status st"
    by (simp add: checkIfProcessingDone_def check_processing_status_def)
  show "checkIfProcessingDone st (Some (check_processing_status_interval st)) =
       check_processing_status st"
    using interval_handler_below[of st]
    by (auto simp: checkIfProcessingDone_def check_processing_status_def)
  show "check_processing_status_interval st =
       (\<exists>a. st K_activeSession = Some (SessionV a) \<and> status a = S_completed)"
    unfolding check_processing_status_interval_def sessionDone_iff[symmetric]
    by (simp add: sessionDone_def)
qed

theorem completion_check_disjunction_witness:
  "check_processing_status done_reply_store
   \<and> checkIfProcessingDone done_reply_store (Some False)
   \<and> check_processing_status (storage (fst (mark_completed running_coordinator)))
   \<and> \<not> check_processing_status (storage running_coordinator)"
proof -
  have a: "check_processing_status done_reply_store"
    using completion_check_disjunction[of done_reply_store, THEN conjunct1]
    by (simp add: done_reply_store_def)
  have b: "checkIfProcessingDone done_reply_store (Some False)"
    using a by (simp add: checkIfProcessingDone_def check_processing_status_def)
  have c: "check_processing_status (storage (fst (mark_completed running_coordinator)))"
    using completion_check_disjunction
            [of "storage (fst (mark_completed running_coordinator))", THEN conjunct1]
    by (simp add: mark_completed_def running_coordinator_def session_t1_def Let_def)
  have d: "\<not> check_processing_status (storage running_coordinator)"
    using completion_check_disjunction[of "storage running_coordinator", THEN conjunct1]
    by (simp add: running_coordinator_def session_t1_def taskState_t1_def)
  from a b c d show ?thesis by simp
qed


text \<open>
  A store in which only the last server reply says done: the interval-based
  coordinator's handler answers not done.
\<close>

theorem check_processing_status_interval_counterexample:
  "lastUpdateDone done_reply_store \<and> \<not> check_processing_status_interval done_reply_store"
  by (simp add: lastUpdateDone_def stored_lastUpdateResponse_def
        check_processing_status_interval_def stored_session_def done_reply_store_def)

section \<open>Properties of the Session Manager\<close>

lemma stored_taskState_upd [simp]:
  "stored_taskState (st(K_taskState \<mapsto> TaskStateV t)) = Some t"
  by (simp add: stored_taskState_def)

lemma stored_taskState_remove_stop_keys [simp]:
  "stored_taskState (remove_keys stop_keys st) = stored_taskState st"
  by (simp add: stored_taskState_def remove_keys_def stop_keys_def)

lemma remove_keys_idem:
  "remove_keys ks ((remove_keys ks st)(k \<mapsto> v)) = remove_keys ks (st(k \<mapsto> v))"
  by (auto simp: remove_keys_def fun_eq_iff)

lemma stopMonitoring_state:
  "fst (stopMonitoring fs tabs s) =
     s\<lparr>currentIterations := 0, isPaused := False, activeSession := None,
       storage := remove_keys stop_keys ((storage s)(K_taskState \<mapsto>
         TaskStateV ((case stored_taskState (storage s) of None \<Rightarrow> empty_taskState | Some t \<Rightarrow> t)
            \<lparr>ts_status := Some fs, ts_isRunning := Some False, ts_isPaused := Some False\<rparr>)))\<rparr>"
  by (simp add: stopMonitoring_def Let_def)

lemma stopMonitoring_idem:
  "fst (stopMonitoring fs tabs2 (fst (stopMonitoring fs tabs1 s))) = fst (stopMonitoring fs tabs1 s)"
  by (simp add: stopMonitoring_state remove_keys_idem)

lemma stopMonitoring_interval_state:
  "fst (stopMonitoring_interval now s) =
     s\<lparr>monitoringInterval := False,
       storage :=
         (case stored_taskState (storage s) of
            None \<Rightarrow> storage s
          | Some t \<Rightarrow>
              (storage s)(K_taskState \<mapsto>
                            TaskStateV (t\<lparr>ts_processingStatus := Some P_idle,
                                          ts_lastUpdateTimestamp := Some now\<rparr>),
                          K_currentDOMUpdate \<mapsto> NullV))\<rparr>"
  by (simp add: stopMonitoring_interval_def Let_def split: option.splits)

lemma stopMonitoring_interval_absorb:
  "fst (stopMonitoring_interval now2 (fst (stopMonitoring_interval now s))) =
     fst (stopMonitoring_interval now2 s)"
  by (cases "stored_taskState (storage s)")
     (simp_all add: stopMonitoring_interval_def Let_def stored_taskState_def)

text \<open>
  C4, as the code has it. In the loop-based coordinator, stopping twice with the same
  final status leaves the state that stopping once leaves, whatever the tabs are; after
  a stop the keys \<^verbatim>\<open>activeSession\<close>, \<^verbatim>\<open>currentDOMUpdate\<close>, \<^verbatim>\<open>lastUpdateResponse\<close> and
  \<^verbatim>\<open>iterationResults\<close> are absent from the store and the in-memory session is cleared;
  the state after a stop is given in full. In the interval-based coordinator a stop
  clears the timer and, when a task state is stored, sets its processing status to
  \<^verbatim>\<open>idle\<close> with the time stamp and stores \<^verbatim>\<open>currentDOMUpdate\<close> as \<^verbatim>\<open>null\<close>, and changes
  nothing else: the in-memory session and the stored \<^verbatim>\<open>activeSession\<close>,
  \<^verbatim>\<open>lastUpdateResponse\<close> and \<^verbatim>\<open>iterationResults\<close> stay as they were. Stopping twice there
  leaves the state of the second stop alone, which is the state of stopping once when
  the time stamps agree.
\<close>

theorem stopMonitoring_idempotent_clears:
  "fst (stopMonitoring fs tabs2 (fst (stopMonitoring fs tabs1 s))) = fst (stopMonitoring fs tabs1 s)
   \<and> storage (fst (stopMonitoring fs tabs1 s)) K_activeSession = None
   \<and> storage (fst (stopMonitoring fs tabs1 s)) K_currentDOMUpdate = None
   \<and> storage (fst (stopMonitoring fs tabs1 s)) K_lastUpdateResponse = None
   \<and> storage (fst (stopMonitoring fs tabs1 s)) K_iterationResults = None
   \<and> activeSession (fst (stopMonitoring fs tabs1 s)) = None
   \<and> fst (stopMonitoring fs tabs1 s) =
       s\<lparr>currentIterations := 0, isPaused := False, activeSession := None,
         storage := remove_keys stop_keys ((storage s)(K_taskState \<mapsto>
           TaskStateV ((case stored_taskState (storage s) of None \<Rightarrow> empty_taskState | Some t \<Rightarrow> t)
              \<lparr>ts_status := Some fs, ts_isRunning := Some False, ts_isPaused := Some False\<rparr>)))\<rparr>
   \<and> fst (stopMonitoring_interval now (fst (stopMonitoring_interval now s))) =
       fst (stopMonitoring_interval now s)
   \<and> fst (stopMonitoring_interval now2 (fst (stopMonitoring_interval now s))) =
       fst (stopMonitoring_interval now2 s)
   \<and> \<not> monitoringInterval (fst (stopMonitoring_interval now s))
   \<and> fst (stopMonitoring_interval now s) =
       s\<lparr>monitoringInterval := False,
         storage :=
           (case stored_taskState (storage s) of
              None \<Rightarrow> storage s
            | Some t \<Rightarrow>
                (storage s)(K_taskState \<mapsto>
                              TaskStateV (t\<lparr>ts_processingStatus := Some P_idle,
                                            ts_lastUpdateTimestamp := Some now\<rparr>),
                            K_currentDOMUpdate \<mapsto> NullV))\<rparr>
   \<and> activeSession (fst (stopMonitoring_interval now s)) = activeSession s
   \<and> storage (fst (stopMonitoring_interval now s)) K_activeSession = storage s K_activeSession
   \<and> storage (fst (stopMonitoring_interval now s)) K_lastUpdateResponse =
       storage s K_lastUpdateResponse
   \<and> storage (fst (stopMonitoring_interval now s)) K_iterationResults =
       storage s K_iterationResults"
proof (intro conjI)
  show "fst (stopMonitoring fs tabs2 (fst (stopMonitoring fs tabs1 s))) =
      fst (stopMonitoring fs tabs1 s)"
    by (rule stopMonitoring_idem)
  show "fst (stopMonitoring_interval now (fst (stopMonitoring_interval now s))) =
       fst (stopMonitoring_interval now s)"
    by (rule stopMonitoring_interval_absorb)
  show "fst (stopMonitoring_interval now2 (fst (stopMonitoring_interval now s))) =
       fst (stopMonitoring_interval now2 s)"
    by (rule stopMonitoring_interval_absorb)
  show "fst (stopMonitoring fs tabs1 s) =
       s\<lparr>currentIterations := 0, isPaused := False, activeSession := None,
         storage := remove_keys stop_keys ((storage s)(K_taskState \<mapsto>
           TaskStateV ((case stored_taskState (storage s) of None \<Rightarrow> empty_taskState | Some t \<Rightarrow> t)
              \<lparr>ts_status := Some fs, ts_isRunning := Some False, ts_isPaused := Some False\<rparr>)))\<rparr>"
    by (rule stopMonitoring_state)
  show "fst (stopMonitoring_interval now s) =
       s\<lparr>monitoringInterval := False,
         storage :=
           (case stored_taskState (storage s) of
              None \<Rightarrow> storage s
            | Some t \<Rightarrow>
                (storage s)(K_taskState \<mapsto>
                              TaskStateV (t\<lparr>ts_processingStatus := Some P_idle,
                                            ts_lastUpdateTimestamp := Some now\<rparr>),
                            K_currentDOMUpdate \<mapsto> NullV))\<rparr>"
    by (rule stopMonitoring_interval_state)
qed (simp_all add: stopMonitoring_state remove_keys_def stop_keys_def
       stopMonitoring_interval_def Let_def split: option.splits)

theorem stopMonitoring_idempotent_clears_witness:
  "fst (stopMonitoring T_idle [] (fst (stopMonitoring T_idle [] running_coordinator))) =
     fst (stopMonitoring T_idle [] running_coordinator)
   \<and> storage (fst (stopMonitoring T_idle [] running_coordinator)) K_activeSession = None
   \<and> activeSession (fst (stopMonitoring T_idle [] running_coordinator)) = None
   \<and> stored_taskState (storage (fst (stopMonitoring T_idle [] running_coordinator))) =
       Some (taskState_t1\<lparr>ts_status := Some T_idle, ts_isRunning := Some False,
                          ts_isPaused := Some False\<rparr>)
   \<and> \<not> monitoringInterval (fst (stopMonitoring_interval ''now'' running_coordinator))
   \<and> storage (fst (stopMonitoring_interval ''now'' running_coordinator)) K_taskState =
       Some (TaskStateV (taskState_t1\<lparr>ts_processingStatus := Some P_idle,
                                      ts_lastUpdateTimestamp := Some ''now''\<rparr>))
   \<and> storage (fst (stopMonitoring_interval ''now'' running_coordinator)) K_currentDOMUpdate =
       Some NullV
   \<and> fst (stopMonitoring_interval ''now'' idle_coordinator) = idle_coordinator"
proof -
  note t = stopMonitoring_idempotent_clears
      [of T_idle "[]" "[]" running_coordinator "''now''" "''later''"]
  note i = stopMonitoring_idempotent_clears
      [of T_idle "[]" "[]" idle_coordinator "''now''" "''later''"]
  have a: "stored_taskState (storage (fst (stopMonitoring T_idle [] running_coordinator))) =
       Some (taskState_t1\<lparr>ts_status := Some T_idle, ts_isRunning := Some False,
                          ts_isPaused := Some False\<rparr>)"
    by (simp add: stopMonitoring_def Let_def running_coordinator_def stored_taskState_def
          remove_keys_def stop_keys_def)
  have r: "stored_taskState (storage running_coordinator) = Some taskState_t1"
    by (simp add: running_coordinator_def stored_taskState_def)
  have n: "stored_taskState (storage idle_coordinator) = None"
    "idle_coordinator\<lparr>monitoringInterval := False, storage := storage idle_coordinator\<rparr> =
       idle_coordinator"
    by (simp_all add: idle_coordinator_def stored_taskState_def)
  have b: "fst (stopMonitoring_interval ''now'' idle_coordinator) = idle_coordinator"
    using i n by simp
  have c: "storage (fst (stopMonitoring_interval ''now'' running_coordinator)) K_taskState =
       Some (TaskStateV (taskState_t1\<lparr>ts_processingStatus := Some P_idle,
                                      ts_lastUpdateTimestamp := Some ''now''\<rparr>))
     \<and> storage (fst (stopMonitoring_interval ''now'' running_coordinator)) K_currentDOMUpdate =
       Some NullV"
    using t r by simp
  from t a b c show ?thesis by blast
qed

text \<open>
  The interval-based coordinator's stop on a running task: the session stays in memory
  and in the store, and \<^verbatim>\<open>currentDOMUpdate\<close> is present with the value \<^verbatim>\<open>null\<close>.
\<close>

theorem stopMonitoring_interval_counterexample:
  "activeSession (fst (stopMonitoring_interval ''2025-01-01T00:00:00.000Z'' running_coordinator)) =
     Some session_t1
   \<and> storage (fst (stopMonitoring_interval ''2025-01-01T00:00:00.000Z'' running_coordinator))
       K_activeSession = Some (SessionV session_t1)
   \<and> storage (fst (stopMonitoring_interval ''2025-01-01T00:00:00.000Z'' running_coordinator))
       K_currentDOMUpdate = Some NullV"
  by (simp add: stopMonitoring_interval_def Let_def running_coordinator_def stored_taskState_def)

lemma updateProcessingStatus_frame:
  "isPaused (fst (updateProcessingStatus tid st now s)) = isPaused s
   \<and> activeSession (fst (updateProcessingStatus tid st now s)) = activeSession s
   \<and> currentIterations (fst (updateProcessingStatus tid st now s)) = currentIterations s
   \<and> isUpdateInProgress (fst (updateProcessingStatus tid st now s)) = isUpdateInProgress s
   \<and> storage (fst (updateProcessingStatus tid st now s)) K_activeSession =
       storage s K_activeSession"
  by (simp add: updateProcessingStatus_def Let_def)

lemma set_paused_flag: "isPaused (fst (set_paused b st now s)) = b"
  by (simp add: set_paused_def Let_def case_prod_beta updateProcessingStatus_frame
           split: option.splits)

lemma set_paused_session:
  "activeSession (fst (set_paused b st now s)) =
     map_option (\<lambda>a. a\<lparr>sessionIsPaused := Some b\<rparr>) (activeSession s)"
  by (simp add: set_paused_def Let_def case_prod_beta updateProcessingStatus_frame
           split: option.splits)

lemma set_paused_stored:
  "storage (fst (set_paused b st now s)) K_activeSession =
     (case activeSession s of
        None \<Rightarrow> storage s K_activeSession
      | Some a \<Rightarrow> Some (SessionV (a\<lparr>sessionIsPaused := Some b\<rparr>)))"
  by (simp add: set_paused_def Let_def case_prod_beta updateProcessingStatus_frame
           split: option.splits)

lemma set_paused_effects:
  "Broadcast (M_pauseStateChanged b) \<in> set (snd (set_paused b st now s))
   \<and> (case activeSession s of
        None \<Rightarrow> True
      | Some a \<Rightarrow> StorageSet K_activeSession (SessionV (a\<lparr>sessionIsPaused := Some b\<rparr>))
                   \<in> set (snd (set_paused b st now s)))"
  by (simp add: set_paused_def Let_def case_prod_beta split: option.splits)

lemma set_paused_counter:
  "currentIterations (fst (set_paused b st now s)) = currentIterations s
   \<and> isUpdateInProgress (fst (set_paused b st now s)) = isUpdateInProgress s"
  by (simp add: set_paused_def Let_def case_prod_beta updateProcessingStatus_frame
           split: option.splits)


lemma set_paused_state:
  "fst (set_paused b st now s) =
     s\<lparr>isPaused := b,
       activeSession := map_option (\<lambda>a. a\<lparr>sessionIsPaused := Some b\<rparr>) (activeSession s),
       storage :=
         (case stored_taskState (storage s) of
            None \<Rightarrow>
              (case activeSession s of
                 None \<Rightarrow> storage s
               | Some a \<Rightarrow>
                   (storage s)(K_activeSession \<mapsto> SessionV (a\<lparr>sessionIsPaused := Some b\<rparr>)))
          | Some t \<Rightarrow>
              (case activeSession s of
                 None \<Rightarrow> storage s
               | Some a \<Rightarrow>
                   (storage s)(K_activeSession \<mapsto> SessionV (a\<lparr>sessionIsPaused := Some b\<rparr>)))
              (K_taskState \<mapsto>
                 TaskStateV (t\<lparr>ts_processingStatus := Some st,
                               ts_lastUpdateTimestamp := Some now\<rparr>)))\<rparr>"
  by (simp add: set_paused_def Let_def case_prod_beta updateProcessingStatus_def
        stored_taskState_def split: option.splits stored.splits)

lemma set_paused_effect_list:
  "snd (set_paused b st now s) =
     (case activeSession s of
        None \<Rightarrow> []
      | Some a \<Rightarrow> [StorageSet K_activeSession (SessionV (a\<lparr>sessionIsPaused := Some b\<rparr>))]) @
     [Broadcast (M_pauseStateChanged b)] @
     (case stored_taskState (storage s) of
        None \<Rightarrow> []
      | Some t \<Rightarrow>
          [StorageSet K_taskState
             (TaskStateV (t\<lparr>ts_processingStatus := Some st,
                           ts_lastUpdateTimestamp := Some now\<rparr>)),
           Broadcast (M_processingStatusUpdate
                        (case activeSession s of None \<Rightarrow> [] | Some a \<Rightarrow> taskId a) st)])"
  by (simp add: set_paused_def Let_def case_prod_beta updateProcessingStatus_def
        stored_taskState_def split: option.splits stored.splits)

text \<open>
  C5, as the code has it (the two coordinators have the same text). \<^verbatim>\<open>pauseMonitoring\<close>
  sets the module's pause flag, sets \<^verbatim>\<open>isPaused\<close> of the in-memory session to true,
  stores that session and broadcasts the change; \<^verbatim>\<open>resumeMonitoring\<close> does the same with
  false. Neither changes the session's status or task id. Without a session the flag is
  still set and the change still broadcast, and the stored session is left alone. With
  or without a session, when a task state is stored its processing status is set to
  \<^verbatim>\<open>paused\<close> (\<^verbatim>\<open>idle\<close> on resume) with the time stamp, the task state is stored, and a
  \<^verbatim>\<open>processingStatusUpdate\<close> is broadcast that carries the session's task id, or the empty
  string when there is no session. The state after the call and the effects of the call
  are given in full: nothing else changes and nothing else is issued.
\<close>

theorem pause_resume_flags:
  "isPaused (fst (pauseMonitoring now s))
   \<and> activeSession (fst (pauseMonitoring now s)) =
       map_option (\<lambda>a. a\<lparr>sessionIsPaused := Some True\<rparr>) (activeSession s)
   \<and> storage (fst (pauseMonitoring now s)) K_activeSession =
       (case activeSession s of
          None \<Rightarrow> storage s K_activeSession
        | Some a \<Rightarrow> Some (SessionV (a\<lparr>sessionIsPaused := Some True\<rparr>)))
   \<and> Broadcast (M_pauseStateChanged True) \<in> set (snd (pauseMonitoring now s))
   \<and> \<not> isPaused (fst (resumeMonitoring now s))
   \<and> activeSession (fst (resumeMonitoring now s)) =
       map_option (\<lambda>a. a\<lparr>sessionIsPaused := Some False\<rparr>) (activeSession s)
   \<and> storage (fst (resumeMonitoring now s)) K_activeSession =
       (case activeSession s of
          None \<Rightarrow> storage s K_activeSession
        | Some a \<Rightarrow> Some (SessionV (a\<lparr>sessionIsPaused := Some False\<rparr>)))
   \<and> Broadcast (M_pauseStateChanged False) \<in> set (snd (resumeMonitoring now s))
   \<and> map_option status (activeSession (fst (pauseMonitoring now s))) =
       map_option status (activeSession s)
   \<and> map_option status (activeSession (fst (resumeMonitoring now s))) =
       map_option status (activeSession s)
   \<and> map_option taskId (activeSession (fst (pauseMonitoring now s))) =
       map_option taskId (activeSession s)
   \<and> map_option taskId (activeSession (fst (resumeMonitoring now s))) =
       map_option taskId (activeSession s)
   \<and> storage (fst (pauseMonitoring now s)) K_taskState =
       (case stored_taskState (storage s) of
          None \<Rightarrow> storage s K_taskState
        | Some t \<Rightarrow> Some (TaskStateV (t\<lparr>ts_processingStatus := Some P_paused,
                                         ts_lastUpdateTimestamp := Some now\<rparr>)))
   \<and> storage (fst (resumeMonitoring now s)) K_taskState =
       (case stored_taskState (storage s) of
          None \<Rightarrow> storage s K_taskState
        | Some t \<Rightarrow> Some (TaskStateV (t\<lparr>ts_processingStatus := Some P_idle,
                                         ts_lastUpdateTimestamp := Some now\<rparr>)))
   \<and> snd (pauseMonitoring now s) =
       (case activeSession s of
          None \<Rightarrow> []
        | Some a \<Rightarrow> [StorageSet K_activeSession (SessionV (a\<lparr>sessionIsPaused := Some True\<rparr>))]) @
       [Broadcast (M_pauseStateChanged True)] @
       (case stored_taskState (storage s) of
          None \<Rightarrow> []
        | Some t \<Rightarrow>
            [StorageSet K_taskState
               (TaskStateV (t\<lparr>ts_processingStatus := Some P_paused,
                             ts_lastUpdateTimestamp := Some now\<rparr>)),
             Broadcast (M_processingStatusUpdate
                          (case activeSession s of None \<Rightarrow> [] | Some a \<Rightarrow> taskId a) P_paused)])
   \<and> snd (resumeMonitoring now s) =
       (case activeSession s of
          None \<Rightarrow> []
        | Some a \<Rightarrow> [StorageSet K_activeSession (SessionV (a\<lparr>sessionIsPaused := Some False\<rparr>))]) @
       [Broadcast (M_pauseStateChanged False)] @
       (case stored_taskState (storage s) of
          None \<Rightarrow> []
        | Some t \<Rightarrow>
            [StorageSet K_taskState
               (TaskStateV (t\<lparr>ts_processingStatus := Some P_idle,
                             ts_lastUpdateTimestamp := Some now\<rparr>)),
             Broadcast (M_processingStatusUpdate
                          (case activeSession s of None \<Rightarrow> [] | Some a \<Rightarrow> taskId a) P_idle)])
   \<and> fst (pauseMonitoring now s) =
       s\<lparr>isPaused := True,
         activeSession := map_option (\<lambda>a. a\<lparr>sessionIsPaused := Some True\<rparr>) (activeSession s),
         storage :=
           (case stored_taskState (storage s) of
              None \<Rightarrow>
                (case activeSession s of
                   None \<Rightarrow> storage s
                 | Some a \<Rightarrow>
                     (storage s)(K_activeSession \<mapsto>
                                   SessionV (a\<lparr>sessionIsPaused := Some True\<rparr>)))
            | Some t \<Rightarrow>
                (case activeSession s of
                   None \<Rightarrow> storage s
                 | Some a \<Rightarrow>
                     (storage s)(K_activeSession \<mapsto>
                                   SessionV (a\<lparr>sessionIsPaused := Some True\<rparr>)))
                (K_taskState \<mapsto>
                   TaskStateV (t\<lparr>ts_processingStatus := Some P_paused,
                                 ts_lastUpdateTimestamp := Some now\<rparr>)))\<rparr>
   \<and> fst (resumeMonitoring now s) =
       s\<lparr>isPaused := False,
         activeSession := map_option (\<lambda>a. a\<lparr>sessionIsPaused := Some False\<rparr>) (activeSession s),
         storage :=
           (case stored_taskState (storage s) of
              None \<Rightarrow>
                (case activeSession s of
                   None \<Rightarrow> storage s
                 | Some a \<Rightarrow>
                     (storage s)(K_activeSession \<mapsto>
                                   SessionV (a\<lparr>sessionIsPaused := Some False\<rparr>)))
            | Some t \<Rightarrow>
                (case activeSession s of
                   None \<Rightarrow> storage s
                 | Some a \<Rightarrow>
                     (storage s)(K_activeSession \<mapsto>
                                   SessionV (a\<lparr>sessionIsPaused := Some False\<rparr>)))
                (K_taskState \<mapsto>
                   TaskStateV (t\<lparr>ts_processingStatus := Some P_idle,
                                 ts_lastUpdateTimestamp := Some now\<rparr>)))\<rparr>"
proof -
  have a: "isPaused (fst (pauseMonitoring now s))
   \<and> activeSession (fst (pauseMonitoring now s)) =
       map_option (\<lambda>a. a\<lparr>sessionIsPaused := Some True\<rparr>) (activeSession s)
   \<and> storage (fst (pauseMonitoring now s)) K_activeSession =
       (case activeSession s of
          None \<Rightarrow> storage s K_activeSession
        | Some a \<Rightarrow> Some (SessionV (a\<lparr>sessionIsPaused := Some True\<rparr>)))
   \<and> Broadcast (M_pauseStateChanged True) \<in> set (snd (pauseMonitoring now s))
   \<and> \<not> isPaused (fst (resumeMonitoring now s))
   \<and> activeSession (fst (resumeMonitoring now s)) =
       map_option (\<lambda>a. a\<lparr>sessionIsPaused := Some False\<rparr>) (activeSession s)
   \<and> storage (fst (resumeMonitoring now s)) K_activeSession =
       (case activeSession s of
          None \<Rightarrow> storage s K_activeSession
        | Some a \<Rightarrow> Some (SessionV (a\<lparr>sessionIsPaused := Some False\<rparr>)))
   \<and> Broadcast (M_pauseStateChanged False) \<in> set (snd (resumeMonitoring now s))
   \<and> map_option status (activeSession (fst (pauseMonitoring now s))) =
       map_option status (activeSession s)
   \<and> map_option status (activeSession (fst (resumeMonitoring now s))) =
       map_option status (activeSession s)
   \<and> map_option taskId (activeSession (fst (pauseMonitoring now s))) =
       map_option taskId (activeSession s)
   \<and> map_option taskId (activeSession (fst (resumeMonitoring now s))) =
       map_option taskId (activeSession s)"
    unfolding pauseMonitoring_def resumeMonitoring_def
    by (simp add: set_paused_flag set_paused_session set_paused_stored set_paused_effects
          option.map_comp comp_def)
  have b: "storage (fst (set_paused f st now s)) K_taskState =
       (case stored_taskState (storage s) of
          None \<Rightarrow> storage s K_taskState
        | Some t \<Rightarrow> Some (TaskStateV (t\<lparr>ts_processingStatus := Some st,
                                         ts_lastUpdateTimestamp := Some now\<rparr>)))" for f st
    by (simp add: set_paused_state split: option.splits)
  show ?thesis
    using a b [of True P_paused] b [of False P_idle]
      set_paused_effect_list [of True P_paused now s]
      set_paused_effect_list [of False P_idle now s]
      set_paused_state [of True P_paused now s]
      set_paused_state [of False P_idle now s]
    unfolding pauseMonitoring_def resumeMonitoring_def by blast
qed

theorem pause_resume_flags_witness:
  "activeSession (fst (pauseMonitoring ''now'' running_coordinator)) =
     Some (session_t1\<lparr>sessionIsPaused := Some True\<rparr>)
   \<and> storage (fst (pauseMonitoring ''now'' running_coordinator)) K_activeSession =
     Some (SessionV (session_t1\<lparr>sessionIsPaused := Some True\<rparr>))
   \<and> activeSession (fst (resumeMonitoring ''later'' (fst (pauseMonitoring ''now'' running_coordinator)))) =
     Some session_t1
   \<and> activeSession (fst (pauseMonitoring ''now'' idle_coordinator)) = None
   \<and> storage (fst (pauseMonitoring ''now'' running_coordinator)) K_taskState =
       Some (TaskStateV (taskState_t1\<lparr>ts_processingStatus := Some P_paused,
                                      ts_lastUpdateTimestamp := Some ''now''\<rparr>))
   \<and> snd (pauseMonitoring ''now'' running_coordinator) =
       [StorageSet K_activeSession (SessionV (session_t1\<lparr>sessionIsPaused := Some True\<rparr>)),
        Broadcast (M_pauseStateChanged True),
        StorageSet K_taskState
          (TaskStateV (taskState_t1\<lparr>ts_processingStatus := Some P_paused,
                                     ts_lastUpdateTimestamp := Some ''now''\<rparr>)),
        Broadcast (M_processingStatusUpdate ''t1'' P_paused)]
   \<and> snd (pauseMonitoring ''now'' idle_coordinator) = [Broadcast (M_pauseStateChanged True)]
   \<and> snd (pauseMonitoring ''now''
            (idle_coordinator\<lparr>storage := [K_taskState \<mapsto> TaskStateV taskState_t1]\<rparr>)) =
       [Broadcast (M_pauseStateChanged True),
        StorageSet K_taskState
          (TaskStateV (taskState_t1\<lparr>ts_processingStatus := Some P_paused,
                                     ts_lastUpdateTimestamp := Some ''now''\<rparr>)),
        Broadcast (M_processingStatusUpdate [] P_paused)]"
proof -
  note p = pause_resume_flags[of "''now''" running_coordinator]
  note r = pause_resume_flags[of "''later''" "fst (pauseMonitoring ''now'' running_coordinator)"]
  note i = pause_resume_flags[of "''now''" idle_coordinator]
  note j = pause_resume_flags[of "''now''"
      "idle_coordinator\<lparr>storage := [K_taskState \<mapsto> TaskStateV taskState_t1]\<rparr>"]
  have s: "activeSession running_coordinator = Some session_t1"
    "activeSession idle_coordinator = None"
    "stored_taskState (storage running_coordinator) = Some taskState_t1"
    "stored_taskState (storage idle_coordinator) = None"
    "stored_taskState [K_taskState \<mapsto> TaskStateV taskState_t1] = Some taskState_t1"
    "taskId session_t1 = ''t1''"
    by (simp_all add: running_coordinator_def idle_coordinator_def stored_taskState_def
          session_t1_def)
  have e: "session_t1\<lparr>sessionIsPaused := Some False\<rparr> = session_t1"
    by (simp add: session_t1_def)
  have 1: "activeSession (fst (pauseMonitoring ''now'' running_coordinator)) =
     Some (session_t1\<lparr>sessionIsPaused := Some True\<rparr>)"
    using p [THEN conjunct2, THEN conjunct1] s by simp
  have 2: "storage (fst (pauseMonitoring ''now'' running_coordinator)) K_activeSession =
     Some (SessionV (session_t1\<lparr>sessionIsPaused := Some True\<rparr>))"
    using p [THEN conjunct2, THEN conjunct2, THEN conjunct1] s by simp
  have 3: "activeSession (fst (resumeMonitoring ''later''
        (fst (pauseMonitoring ''now'' running_coordinator)))) = Some session_t1"
    using r [THEN conjunct2, THEN conjunct2, THEN conjunct2, THEN conjunct2, THEN conjunct2,
        THEN conjunct1] 1 e by simp
  have 4: "activeSession (fst (pauseMonitoring ''now'' idle_coordinator)) = None"
    using i [THEN conjunct2, THEN conjunct1] s by simp
  have t: "A1 \<and> A2 \<and> A3 \<and> A4 \<and> A5 \<and> A6 \<and> A7 \<and> A8 \<and> A9 \<and> A10 \<and> A11 \<and> A12 \<and> A13 \<and> A14 \<and> A15 \<and> R
      \<Longrightarrow> A13 \<and> A15"
    for A1 A2 A3 A4 A5 A6 A7 A8 A9 A10 A11 A12 A13 A14 A15 R
    by blast
  have 5: "storage (fst (pauseMonitoring ''now'' running_coordinator)) K_taskState =
       Some (TaskStateV (taskState_t1\<lparr>ts_processingStatus := Some P_paused,
                                      ts_lastUpdateTimestamp := Some ''now''\<rparr>))"
    using t [OF p, THEN conjunct1] s by simp
  have 6: "snd (pauseMonitoring ''now'' running_coordinator) =
       [StorageSet K_activeSession (SessionV (session_t1\<lparr>sessionIsPaused := Some True\<rparr>)),
        Broadcast (M_pauseStateChanged True),
        StorageSet K_taskState
          (TaskStateV (taskState_t1\<lparr>ts_processingStatus := Some P_paused,
                                     ts_lastUpdateTimestamp := Some ''now''\<rparr>)),
        Broadcast (M_processingStatusUpdate ''t1'' P_paused)]"
    using t [OF p, THEN conjunct2] s by simp
  have 7: "snd (pauseMonitoring ''now'' idle_coordinator) = [Broadcast (M_pauseStateChanged True)]"
    using t [OF i, THEN conjunct2] s by simp
  have 8: "snd (pauseMonitoring ''now''
            (idle_coordinator\<lparr>storage := [K_taskState \<mapsto> TaskStateV taskState_t1]\<rparr>)) =
       [Broadcast (M_pauseStateChanged True),
        StorageSet K_taskState
          (TaskStateV (taskState_t1\<lparr>ts_processingStatus := Some P_paused,
                                     ts_lastUpdateTimestamp := Some ''now''\<rparr>)),
        Broadcast (M_processingStatusUpdate [] P_paused)]"
    using t [OF j, THEN conjunct2] s by simp
  from 1 2 3 4 5 6 7 8 show ?thesis by blast
qed

text \<open>
  Pausing the running task: the session is paused and its status is still \<^verbatim>\<open>active\<close>.
\<close>

theorem pauseMonitoring_status_counterexample:
  "activeSession (fst (pauseMonitoring ''2025-01-01T00:00:00.000Z'' running_coordinator)) =
     Some \<lparr>taskId = ''t1'', status = S_active, sessionIsPaused = Some True,
           sessionIsRunning = None\<rparr>
   \<and> isPaused (fst (pauseMonitoring ''2025-01-01T00:00:00.000Z'' running_coordinator))
   \<and> S_active \<noteq> S_paused"
  by (simp add: pauseMonitoring_def set_paused_def Let_def running_coordinator_def session_t1_def
        updateProcessingStatus_def stored_taskState_def case_prod_beta)












section \<open>Properties of the Iteration Engine\<close>

lemma record_iterations_frame:
  "currentIterations (fst (record_iterations s)) = currentIterations s
   \<and> activeSession (fst (record_iterations s)) = activeSession s
   \<and> isPaused (fst (record_iterations s)) = isPaused s
   \<and> isUpdateInProgress (fst (record_iterations s)) = isUpdateInProgress s
   \<and> storage (fst (record_iterations s)) K_activeSession = storage s K_activeSession"
  by (simp add: record_iterations_def Let_def split: option.splits)

lemma mark_completed_frame:
  "currentIterations (fst (mark_completed s)) = currentIterations s
   \<and> isPaused (fst (mark_completed s)) = isPaused s
   \<and> isUpdateInProgress (fst (mark_completed s)) = isUpdateInProgress s"
  by (simp add: mark_completed_def Let_def split: option.splits)




lemma stopMonitoring_final:
  "activeSession (fst (stopMonitoring fs tabs s)) = None
   \<and> currentIterations (fst (stopMonitoring fs tabs s)) = 0
   \<and> \<not> isPaused (fst (stopMonitoring fs tabs s))
   \<and> isUpdateInProgress (fst (stopMonitoring fs tabs s)) = isUpdateInProgress s
   \<and> map_option ts_status (stored_taskState (storage (fst (stopMonitoring fs tabs s)))) =
       Some (Some fs)"
  by (simp add: stopMonitoring_def Let_def stored_taskState_def remove_keys_def stop_keys_def)


lemma example_tab_found:
  "getValidTab 5 1000 (\<lambda>i. QueryOk [example_tab]) qall = (Some example_tab, [], 1)"
proof -
  have "usable_tab (QueryOk [example_tab]) = Some example_tab"
    by (simp add: usable_tab_def example_tab_def truthy_id_def truthy_url_def)
  then have "getValidTab_attempts (\<lambda>i. QueryOk [example_tab]) 5 1000 1 = (Some example_tab, [], 1)"
    by (intro attempts_hit) simp_all
  then show ?thesis by (simp add: getValidTab_def)
qed

lemma example_tab_valid: "isValidUrl_opt (tab_url example_tab)"
  by (simp add: isValidUrl_opt_def example_tab_def isValidUrl_def startsWith_def)

lemma first_reply_returned:
  assumes "\<not> bfcache_failure r"
  shows "sendProcessMessage 10 (\<lambda>i. \<lparr>ping_ok = True, inject_ok = True, reply = Result (Some r)\<rparr>) =
     (Inr r, [], 1)"
proof -
  have "\<not> retryable \<lparr>ping_ok = True, inject_ok = True, reply = Result (Some r)\<rparr>"
    using assms by (simp add: retryable_def attemptSend_def)
  then have "sendProcessMessage_loop
      (\<lambda>i. \<lparr>ping_ok = True, inject_ok = True, reply = Result (Some r)\<rparr>) 10 0 =
      (attempt_result \<lparr>ping_ok = True, inject_ok = True, reply = Result (Some r)\<rparr>, [], Suc 0)"
    by (intro loop_final_step) simp_all
  then show ?thesis
    by (simp add: sendProcessMessage_def attempt_result_def attemptSend_def)
qed

lemma done_browser_done: "dispatch_done done_browser"
  by (simp add: dispatch_done_def done_browser_def example_tab_found example_tab_valid
        first_reply_returned bfcache_failure_def)













lemma while_pending_done:
  assumes "dispatch_done b"
  shows "while_pending b s =
     (fst (stopMonitoring T_idle (br_stop_tabs b)
             (s\<lparr>storage := fst (announce_done (br_task_id b) (storage s))\<rparr>)),
      snd (announce_done (br_task_id b) (storage s)) @
      snd (stopMonitoring T_idle (br_stop_tabs b)
             (s\<lparr>storage := fst (announce_done (br_task_id b) (storage s))\<rparr>)))"
  using assms by (simp add: while_pending_def case_prod_beta)

lemma while_pending_idle: "\<not> dispatch_done b \<Longrightarrow> while_pending b s = (s, [])"
  by (simp add: while_pending_def)


lemma while_pending_counter:
  "currentIterations (fst (while_pending b s)) =
     (if dispatch_done b then 0 else currentIterations s)"
  by (simp add: while_pending_done while_pending_idle stopMonitoring_final)



lemma dispatch_done_ends: "dispatch_done b \<Longrightarrow> ends_in_stop b"
  by (auto simp: ends_in_stop_def dispatch_done_def split: option.splits sum.splits)

lemma startMonitoring_init_counter:
  "currentIterations (fst (snd (startMonitoring_init b nav s))) = 0"
  by (simp add: startMonitoring_init_def Let_def case_prod_beta stopMonitoring_final
           split: option.splits)

lemma iteration_begin_counter:
  "currentIterations (snd (iteration_begin s)) =
     (if fst (iteration_begin s) = Started then currentIterations s + 1 else currentIterations s)"
  by (simp add: iteration_begin_def split: option.splits)

lemma iteration_body_counter:
  "currentIterations (fst (snd (iteration_body b s))) =
     (if ends_in_stop b then 0 else currentIterations s)"
  by (auto simp: iteration_body_def ends_in_stop_def Let_def case_prod_beta stopMonitoring_final
        record_iterations_frame mark_completed_frame
      split: option.splits sum.splits)

lemma iteration_body_session:
  "ends_in_stop b \<Longrightarrow> activeSession (fst (snd (iteration_body b s))) = None"
  by (auto simp: iteration_body_def ends_in_stop_def Let_def case_prod_beta stopMonitoring_final
      split: option.splits sum.splits)

lemma iteration_finish_counter:
  "currentIterations (fst (snd (iteration_finish b s))) =
     (if ends_in_stop b then 0 else currentIterations s)"
  using iteration_body_counter[of b s] by (simp add: iteration_finish_def case_prod_beta)

lemma iteration_finish_session:
  "ends_in_stop b \<Longrightarrow> activeSession (fst (snd (iteration_finish b s))) = None"
  using iteration_body_session[of b s] by (simp add: iteration_finish_def case_prod_beta)

lemma processOneIteration_counter:
  assumes "fst (iteration_begin s) = Started"
  shows "currentIterations (fst (snd (processOneIteration b s))) =
     (if ends_in_stop b then 0 else currentIterations s + 1)"
proof -
  obtain s' where b: "iteration_begin s = (Started, s')"
    using assms by (cases "iteration_begin s") simp
  then have c: "currentIterations s' = currentIterations s + 1"
    using iteration_begin_counter[of s] by simp
  have p: "currentIterations (fst (snd (processOneIteration b s))) =
      currentIterations (fst (snd (iteration_finish b (fst (while_pending b s')))))"
    using b by (simp add: processOneIteration_def case_prod_beta)
  show ?thesis
  proof (cases "dispatch_done b")
    case True
    then show ?thesis
      unfolding p by (simp add: iteration_finish_counter dispatch_done_ends)
  next
    case False
    then show ?thesis
      unfolding p using c by (simp add: iteration_finish_counter while_pending_idle)
  qed
qed

lemma stopMonitoring_interval_counter:
  "currentIterations (fst (stopMonitoring_interval now s)) = currentIterations s"
  by (simp add: stopMonitoring_interval_def Let_def split: option.splits)

lemma iteration_body_interval_counter:
  "currentIterations (fst (iteration_body_interval env s)) =
     (if delivers_success env then currentIterations s + 1 else currentIterations s)"
  by (auto simp: iteration_body_interval_def delivers_success_def Let_def case_prod_beta
        stopMonitoring_interval_counter record_iterations_frame mark_completed_frame
      split: query.splits sum.splits option.splits)

lemma iteration_finish_interval_counter:
  "currentIterations (fst (iteration_finish_interval env s)) =
     (if delivers_success env then currentIterations s + 1 else currentIterations s)"
  using iteration_body_interval_counter[of env s]
  by (simp add: iteration_finish_interval_def case_prod_beta)

lemma retrying_browser_delivers:
  "sendProcessMessage 10 (br_bridge retrying_browser) =
     (Inr \<lparr>success = True, error = None, isDone = False\<rparr>, [1000, 2000], 3)"
proof -
  let ?bf = "\<lparr>ping_ok = True, inject_ok = True, reply = LastError ''in back/forward cache''\<rparr>"
  let ?ok = "\<lparr>ping_ok = True, inject_ok = True,
              reply = Result (Some \<lparr>success = True, error = None, isDone = False\<rparr>)\<rparr>"
  have bf: "retryable ?bf"
    by (simp add: retryable_def attemptSend_def bfcache_failure_def)
  have ok: "\<not> retryable ?ok"
    by (simp add: retryable_def attemptSend_def bfcache_failure_def)
  let ?f = "\<lambda>i::nat. if i < 2 then ?bf else ?ok"
  have "sendProcessMessage_loop ?f 10 0 =
      (attempt_result ?ok, map (\<lambda>j. 1000 * j) [Suc 0 ..< Suc 2], Suc 2)"
    using loop_first_final[of 0 2 10 ?f] bf ok by simp
  moreover have "map (\<lambda>j. 1000 * j) [Suc 0 ..< Suc 2] = [1000, 2000 :: nat]" by code_simp
  ultimately show ?thesis
    by (simp add: sendProcessMessage_def retrying_browser_def attempt_result_def attemptSend_def)
qed

lemma retrying_browser_continues: "\<not> ends_in_stop retrying_browser"
  using retrying_browser_delivers
  by (simp add: ends_in_stop_def retrying_browser_def example_tab_found example_tab_valid)

lemma running_begins: "fst (iteration_begin running_coordinator) = Started"
  by (simp add: iteration_begin_def running_coordinator_def session_t1_def)




text \<open>
  C9, as the code has it. Starting to monitor sets the counter to zero in both
  coordinators. In the loop-based coordinator a call of \<^verbatim>\<open>processOneIteration\<close> that
  passes its guards adds one before anything else and a call that is skipped adds
  nothing; the rest of the iteration, with all its delivery attempts, leaves the counter
  alone unless it ends in \<^verbatim>\<open>stopMonitoring\<close>, which sets it to zero and clears the session.
  Pause and resume keep it; \<^verbatim>\<open>stopMonitoring\<close> and the \<^verbatim>\<open>resetIterations\<close> message set it to
  zero. In the interval-based coordinator the counter grows by one exactly in an
  iteration that delivers a success, and \<^verbatim>\<open>stopMonitoring\<close> keeps it.
\<close>

theorem iteration_counter_discipline:
  "currentIterations (fst (snd (startMonitoring_init b nav s))) = 0
   \<and> currentIterations (startMonitoring_init_interval s) = 0
   \<and> currentIterations (snd (iteration_begin s)) =
       (if fst (iteration_begin s) = Started then currentIterations s + 1 else currentIterations s)
   \<and> currentIterations (fst (snd (iteration_finish b s))) =
       (if ends_in_stop b then 0 else currentIterations s)
   \<and> (ends_in_stop b \<longrightarrow> activeSession (fst (snd (iteration_finish b s))) = None)
   \<and> (fst (iteration_begin s) = Started \<longrightarrow>
        currentIterations (fst (snd (processOneIteration b s))) =
          (if ends_in_stop b then 0 else currentIterations s + 1))
   \<and> currentIterations (fst (pauseMonitoring now s)) = currentIterations s
   \<and> currentIterations (fst (resumeMonitoring now s)) = currentIterations s
   \<and> currentIterations (fst (stopMonitoring fs tabs s)) = 0
   \<and> currentIterations (resetIterations s) = 0
   \<and> currentIterations (snd (iteration_begin_interval s)) = currentIterations s
   \<and> currentIterations (fst (iteration_finish_interval env s)) =
       (if delivers_success env then currentIterations s + 1 else currentIterations s)
   \<and> currentIterations (fst (stopMonitoring_interval now s)) = currentIterations s"
proof (intro conjI impI)
  show "currentIterations (fst (snd (startMonitoring_init b nav s))) = 0"
    by (rule startMonitoring_init_counter)
  show "currentIterations (snd (iteration_begin s)) =
       (if fst (iteration_begin s) = Started then currentIterations s + 1 else currentIterations s)"
    by (rule iteration_begin_counter)
  show "currentIterations (fst (snd (iteration_finish b s))) =
       (if ends_in_stop b then 0 else currentIterations s)"
    by (rule iteration_finish_counter)
  show "currentIterations (fst (iteration_finish_interval env s)) =
       (if delivers_success env then currentIterations s + 1 else currentIterations s)"
    by (rule iteration_finish_interval_counter)
  show "currentIterations (fst (stopMonitoring_interval now s)) = currentIterations s"
    by (rule stopMonitoring_interval_counter)
  show "currentIterations (fst (pauseMonitoring now s)) = currentIterations s"
    by (simp add: pauseMonitoring_def set_paused_counter)
  show "currentIterations (fst (resumeMonitoring now s)) = currentIterations s"
    by (simp add: resumeMonitoring_def set_paused_counter)
  show "currentIterations (fst (stopMonitoring fs tabs s)) = 0"
    by (simp add: stopMonitoring_final)
  show "currentIterations (startMonitoring_init_interval s) = 0"
    by (simp add: startMonitoring_init_interval_def)
  show "currentIterations (resetIterations s) = 0"
    by (simp add: resetIterations_def)
  show "currentIterations (snd (iteration_begin_interval s)) = currentIterations s"
    by (simp add: iteration_begin_interval_def)
next
  assume "ends_in_stop b"
  then show "activeSession (fst (snd (iteration_finish b s))) = None"
    by (rule iteration_finish_session)
next
  assume "fst (iteration_begin s) = Started"
  then show "currentIterations (fst (snd (processOneIteration b s))) =
          (if ends_in_stop b then 0 else currentIterations s + 1)"
    by (rule processOneIteration_counter)
qed

theorem iteration_counter_discipline_witness:
  "currentIterations (fst (snd (processOneIteration retrying_browser running_coordinator))) = 4
   \<and> currentIterations (fst (snd (processOneIteration done_browser running_coordinator))) = 0
   \<and> activeSession (fst (snd (iteration_finish done_browser running_coordinator))) = None"
proof -
  note r = iteration_counter_discipline
      [of retrying_browser True running_coordinator "''now''" T_idle "[]" unreachable_env]
  note d = iteration_counter_discipline
      [of done_browser True running_coordinator "''now''" T_idle "[]" unreachable_env]
  have e: "ends_in_stop done_browser"
    using done_browser_done by (rule dispatch_done_ends)
  have c: "currentIterations running_coordinator = 3" by (simp add: running_coordinator_def)
  from r d e c retrying_browser_continues running_begins show ?thesis by simp
qed

text \<open>
  The interval-based coordinator attempts an iteration on a page whose agent cannot be
  reached: the guards are passed and the counter stays at 3.
\<close>

theorem interval_counter_counterexample:
  "fst (iteration_begin_interval running_coordinator)
   \<and> currentIterations running_coordinator = 3
   \<and> currentIterations (fst (processOneIteration_interval unreachable_env running_coordinator)) = 3"
  by (simp add: processOneIteration_interval_def iteration_begin_interval_def
        while_pending_interval_def dispatch_done_interval_def
        iteration_finish_interval_def iteration_body_interval_def unreachable_env_def
        running_coordinator_def processable_def example_tab_def truthy_id_def truthy_url_def
        isValidUrl_opt_def isValidUrl_def startsWith_def attemptSend_def)

section \<open>Iterations in flight\<close>

lemma iteration_begin_guard:
  "fst (iteration_begin s) = Started \<Longrightarrow>
     \<not> isUpdateInProgress s \<and> isUpdateInProgress (snd (iteration_begin s))"
  by (auto simp: iteration_begin_def split: option.splits if_splits)

lemma iteration_begin_skip:
  "fst (iteration_begin s) \<noteq> Started \<Longrightarrow> snd (iteration_begin s) = s"
  by (auto simp: iteration_begin_def split: option.splits if_splits)

lemma iteration_finish_clears: "\<not> isUpdateInProgress (fst (snd (iteration_finish b s)))"
  by (simp add: iteration_finish_def case_prod_beta)

lemma iteration_begin_interval_guard:
  "fst (iteration_begin_interval s) \<Longrightarrow>
     \<not> isUpdateInProgress s \<and> isUpdateInProgress (snd (iteration_begin_interval s))"
  by (simp add: iteration_begin_interval_def split: if_splits)

lemma iteration_begin_interval_skip:
  "\<not> fst (iteration_begin_interval s) \<Longrightarrow> snd (iteration_begin_interval s) = s"
  by (simp add: iteration_begin_interval_def split: if_splits)

lemma iteration_finish_interval_clears:
  "\<not> isUpdateInProgress (fst (iteration_finish_interval env s))"
  by (simp add: iteration_finish_interval_def case_prod_beta)

lemma startMonitoring_init_flag:
  "fst (startMonitoring_init b nav s) \<Longrightarrow>
     \<not> isUpdateInProgress (fst (snd (startMonitoring_init b nav s)))"
  by (auto simp: startMonitoring_init_def Let_def case_prod_beta
      split: option.splits if_splits prod.splits)

lemma guarded_idle: "guarded c \<Longrightarrow> \<not> in_progress c \<Longrightarrow> bodies c = 0"
  by (auto simp: guarded_def)

lemma guarded_busy: "guarded c \<Longrightarrow> bodies c \<noteq> 0 \<Longrightarrow> bodies c = 1"
  by (auto simp: guarded_def)

lemma list_all_update: "list_all P xs \<Longrightarrow> P x \<Longrightarrow> list_all P (xs[i := x])"
  by (induction xs arbitrary: i) (auto split: nat.splits)

lemma list_all_nth: "list_all P xs \<Longrightarrow> i < length xs \<Longrightarrow> P (xs ! i)"
  by (simp add: list_all_length)

lemma list_all_last: "list_all P xs \<Longrightarrow> xs \<noteq> [] \<Longrightarrow> P (last xs)"
  by (induction xs) auto

lemma list_all_butlast: "list_all P xs \<Longrightarrow> list_all P (butlast xs)"
  by (induction xs) auto

lemma begun_guarded:
  assumes "guarded c" "\<not> in_progress c"
  shows "guarded (begun c (iteration_begin_interval (load c s)))"
proof (cases "fst (iteration_begin_interval (load c s))")
  case True
  with iteration_begin_interval_guard [OF True] guarded_idle [OF assms] show ?thesis
    by (simp add: begun_def guarded_def)
next
  case False
  with iteration_begin_interval_skip [OF False] guarded_idle [OF assms] assms show ?thesis
    by (simp add: begun_def guarded_def load_def)
qed

lemma step_guarded:
  assumes "list_all guarded (closures m)"
  shows "list_all guarded (closures (step ev m))"
proof (cases ev)
  case (Start b nav)
  show ?thesis
  proof (cases "fst (startMonitoring_init b nav (coord m))")
    case True
    with startMonitoring_init_flag [OF True] assms Start show ?thesis
      by (simp add: step_def case_prod_beta guarded_def)
  next
    case False
    with assms Start show ?thesis by (simp add: step_def case_prod_beta)
  qed
next
  case (Trigger i)
  show ?thesis
  proof (cases "i < length (closures m)")
    case False
    with assms Trigger show ?thesis by (simp add: step_def)
  next
    case True
    let ?c = "closures m ! i"
    have g: "guarded ?c" by (rule list_all_nth [OF assms True])
    show ?thesis
    proof (cases "fst (iteration_begin (load ?c (coord m))) = Started")
      case started: True
      then obtain s' where b: "iteration_begin (load ?c (coord m)) = (Started, s')"
        by (cases "iteration_begin (load ?c (coord m))") simp
      from iteration_begin_guard [OF started]
      have "\<not> isUpdateInProgress (load ?c (coord m))"
        and "isUpdateInProgress (snd (iteration_begin (load ?c (coord m))))" by simp_all
      then have "\<not> in_progress ?c" and u: "isUpdateInProgress s'"
        unfolding b by (simp_all add: load_def)
      with g have "bodies ?c = 0" by (simp add: guarded_idle)
      with u have "guarded \<lparr>in_progress = isUpdateInProgress s', bodies = bodies ?c + 1\<rparr>"
        by (simp add: guarded_def)
      with assms True Trigger b show ?thesis
        by (simp add: step_def list_all_update)
    next
      case False
      then obtain r s' where b: "iteration_begin (load ?c (coord m)) = (Skipped r, s')"
        by (cases "iteration_begin (load ?c (coord m))";
            cases "fst (iteration_begin (load ?c (coord m)))") auto
      with assms True Trigger show ?thesis by (simp add: step_def)
    qed
  qed
next
  case (Finish i b)
  show ?thesis
  proof (cases "i < length (closures m) \<and> bodies (closures m ! i) \<noteq> 0")
    case False
    with assms Finish show ?thesis by (auto simp: step_def)
  next
    case True
    let ?c = "closures m ! i"
    have "guarded ?c" using assms True by (simp add: list_all_nth)
    with True have "bodies ?c = 1" by (simp add: guarded_busy)
    then have "guarded \<lparr>in_progress = isUpdateInProgress
          (fst (snd (iteration_finish b (load ?c (coord m))))), bodies = bodies ?c - 1\<rparr>"
      by (simp add: guarded_def iteration_finish_clears)
    with assms True Finish show ?thesis
      by (simp add: step_def case_prod_beta list_all_update)
  qed
next
  case (Pause now)
  with assms show ?thesis by (simp add: step_def)
next
  case (Resume now)
  with assms show ?thesis by (simp add: step_def)
next
  case (Stop fs tabs)
  with assms show ?thesis by (simp add: step_def)
qed

lemma step_interval_guarded:
  assumes "list_all guarded (closures m)"
  shows "list_all guarded (closures (step_interval ev m))"
proof (cases ev)
  case Start_interval
  have e: "guarded \<lparr>in_progress = False, bodies = 0\<rparr>" by (simp add: guarded_def)
  have "load \<lparr>in_progress = False, bodies = 0\<rparr> (startMonitoring_init_interval (coord m)) =
      startMonitoring_init_interval (coord m)"
    by (simp add: load_def startMonitoring_init_interval_def)
  with begun_guarded [OF e, of "startMonitoring_init_interval (coord m)"]
  have "guarded (begun \<lparr>in_progress = False, bodies = 0\<rparr>
      (iteration_begin_interval (startMonitoring_init_interval (coord m))))"
    by simp
  with assms Start_interval show ?thesis
    by (simp add: step_interval_def Let_def)
next
  case Tick
  show ?thesis
  proof (cases "monitoringInterval (coord m) \<and> closures m \<noteq> [] \<and>
             \<not> in_progress (last (closures m)) \<and> \<not> isPaused (coord m)")
    case False
    with assms Tick show ?thesis by (auto simp: step_interval_def)
  next
    case True
    then have "guarded (last (closures m))" using assms by (simp add: list_all_last)
    with True have "guarded (begun (last (closures m))
        (iteration_begin_interval (load (last (closures m)) (coord m))))"
      by (simp add: begun_guarded)
    with assms True Tick show ?thesis
      by (simp add: step_interval_def Let_def list_all_butlast)
  qed
next
  case (Finish_interval i env)
  show ?thesis
  proof (cases "i < length (closures m) \<and> bodies (closures m ! i) \<noteq> 0")
    case False
    with assms Finish_interval show ?thesis by (auto simp: step_interval_def)
  next
    case True
    let ?c = "closures m ! i"
    have "guarded ?c" using assms True by (simp add: list_all_nth)
    with True have "bodies ?c = 1" by (simp add: guarded_busy)
    then have "guarded \<lparr>in_progress = isUpdateInProgress
          (fst (iteration_finish_interval env (load ?c (coord m)))), bodies = bodies ?c - 1\<rparr>"
      by (simp add: guarded_def iteration_finish_interval_clears)
    with assms True Finish_interval show ?thesis
      by (simp add: step_interval_def case_prod_beta list_all_update)
  qed
next
  case (Pause_interval now)
  with assms show ?thesis by (simp add: step_interval_def)
next
  case (Resume_interval now)
  with assms show ?thesis by (simp add: step_interval_def)
next
  case (Stop_interval now)
  with assms show ?thesis by (simp add: step_interval_def)
qed

text \<open>
  Within one call the guard holds: whatever the events, every call has at most one
  body in flight and its flag is up exactly while it has one.
\<close>

lemma run_guarded: "list_all guarded (closures m) \<Longrightarrow> list_all guarded (closures (run evs m))"
  unfolding run_def
  by (induction evs arbitrary: m) (simp_all add: step_guarded)

lemma run_interval_guarded:
  "list_all guarded (closures m) \<Longrightarrow> list_all guarded (closures (run_interval evs m))"
  unfolding run_interval_def
  by (induction evs arbitrary: m) (simp_all add: step_interval_guarded)

lemma done_browser_entered:
  "startMonitoring_init done_browser True s =
     (True, s\<lparr>monitoringInterval := False, currentIterations := 0, isPaused := False,
              isUpdateInProgress := False\<rparr>, [])"
  by (simp add: startMonitoring_init_def Let_def done_browser_def example_tab_found
        example_tab_valid)

text \<open>
  C1, where the code departs from it. The guard is a variable of one \<^verbatim>\<open>startMonitoring\<close>
  call, so it keeps the iterations of that call apart (a second trigger of the same call
  is skipped while the first body is in flight) and no others. Let two
  \<^verbatim>\<open>startMonitoring\<close> messages arrive for the running task, the second while the
  iteration of the first call is in flight: the second call has a flag of its own, which
  is down, so its iteration passes the guard, and two iteration bodies are in flight at
  once. This happens in both coordinators; in the interval-based one the second call
  starts its iteration at once.
\<close>

theorem duplicate_start_two_in_flight:
  "closures (run [Start done_browser True, Trigger 0, Trigger 0] running_machine) =
     [\<lparr>in_progress = True, bodies = 1\<rparr>]
   \<and> closures (run [Start done_browser True, Trigger 0, Start done_browser True, Trigger 1]
                 running_machine) =
     [\<lparr>in_progress = True, bodies = 1\<rparr>, \<lparr>in_progress = True, bodies = 1\<rparr>]
   \<and> inflight (run [Start done_browser True, Trigger 0, Start done_browser True, Trigger 1]
                 running_machine) = 2
   \<and> closures (run_interval [Start_interval, Tick] running_machine) =
     [\<lparr>in_progress = True, bodies = 1\<rparr>]
   \<and> closures (run_interval [Start_interval, Start_interval] running_machine) =
     [\<lparr>in_progress = True, bodies = 1\<rparr>, \<lparr>in_progress = True, bodies = 1\<rparr>]
   \<and> inflight (run_interval [Start_interval, Start_interval] running_machine) = 2"
  by (simp add: run_def run_interval_def step_def step_interval_def inflight_def
        done_browser_entered running_machine_def running_coordinator_def session_t1_def
        iteration_begin_def iteration_begin_interval_def startMonitoring_init_interval_def
        load_def park_def begun_def Let_def)

end
